theory Spec2Isabelle
  imports Complex_Main "HOL-Library.Multiset"
begin

section \<open>Values, errors and the random source\<close>

text \<open>
  The quiz of \<^verbatim>\<open>js/app.js\<close> (class \<^verbatim>\<open>WordLearningApp\<close>) works on JavaScript strings and on
  \<^verbatim>\<open>undefined\<close>, which \<^verbatim>\<open>word[position]\<close> yields when \<^verbatim>\<open>position\<close> is past the end of the
  string. A string is a list of characters (one \<^typ>\<open>char\<close> per code unit).
\<close>

datatype jsval = Undefined | Str string

text \<open>
  \<^verbatim>\<open>TypeError\<close> is what JavaScript throws on a property read of \<^verbatim>\<open>undefined\<close>.
  \<^verbatim>\<open>OutOfRandomness\<close> is not a JavaScript error: the outputs of \<^verbatim>\<open>Math.random()\<close> are
  given to the model as a finite list, consumed from the front, and a function that needs a
  further output when the list is empty returns \<^verbatim>\<open>OutOfRandomness\<close>. A loop that draws a
  random number in every iteration therefore recurses on that list.
\<close>

datatype error = TypeError | OutOfRandomness

text \<open>\<^verbatim>\<open>Math.random()\<close> returns a number \<open>u\<close> with \<open>0 \<le> u < 1\<close>.\<close>

definition valid_rnd :: "real list \<Rightarrow> bool" where
  "valid_rnd rs = list_all (\<lambda>u. 0 \<le> u \<and> u < 1) rs"

text \<open>
  \<^verbatim>\<open>Math.floor(Math.random() * n)\<close> for the output \<open>u\<close> of \<^verbatim>\<open>Math.random()\<close>. The product
  is taken on the reals; the double-precision product of a number below 1 and a small
  whole number \<open>n\<close> stays below \<open>n\<close> as well.
\<close>

definition randomInt :: "real \<Rightarrow> nat \<Rightarrow> nat" where
  "randomInt u n = nat \<lfloor>u * real n\<rfloor>"

section \<open>shuffleArray\<close>

text \<open>
  \<^verbatim>\<open>
  shuffleArray(array) {
      const shuffled = [...array];
      for (let i = shuffled.length - 1; i > 0; i--) {
          const j = Math.floor(Math.random() * (i + 1));
          [shuffled[i], shuffled[j]] = [shuffled[j], shuffled[i]];
      }
      return shuffled;
  }
  \<close>
  \<open>shuffle_loop k\<close> is the loop entered with \<open>i = k\<close>. With \<open>u\<close> in the range of
  \<^verbatim>\<open>Math.random()\<close> the index \<open>j\<close> is at most \<open>i\<close>, so both reads are in range.
\<close>

fun shuffle_loop :: "nat \<Rightarrow> 'a list \<Rightarrow> real list \<Rightarrow> error + ('a list \<times> real list)" where
  "shuffle_loop 0 shuffled rs = Inr (shuffled, rs)"
| "shuffle_loop (Suc k) shuffled [] = Inl OutOfRandomness"
| "shuffle_loop (Suc k) shuffled (u # rs) =
     (let i = Suc k; j = randomInt u (i + 1)
      in shuffle_loop k (shuffled[i := shuffled ! j, j := shuffled ! i]) rs)"

definition shuffleArray :: "'a list \<Rightarrow> real list \<Rightarrow> error + ('a list \<times> real list)" where
  "shuffleArray array rs = shuffle_loop (length array - 1) array rs"

text \<open>
  The same function on an explicit store, where the copy \<^verbatim>\<open>[...array]\<close> and the in-place
  swaps are visible. The store is the list of all arrays allocated so far, an array's
  address is its index, and a new array is allocated at the end. \<open>shuffleArray_st a h rs\<close>
  shuffles the array at address \<open>a\<close> and returns the address of the result.
\<close>

type_synonym 'a store = "'a list list"

fun shuffle_loop_st :: "nat \<Rightarrow> nat \<Rightarrow> 'a store \<Rightarrow> real list \<Rightarrow> error + ('a store \<times> real list)" where
  "shuffle_loop_st 0 p h rs = Inr (h, rs)"
| "shuffle_loop_st (Suc k) p h [] = Inl OutOfRandomness"
| "shuffle_loop_st (Suc k) p h (u # rs) =
     (let i = Suc k; j = randomInt u (i + 1); shuffled = h ! p
      in shuffle_loop_st k p (h[p := shuffled[i := shuffled ! j, j := shuffled ! i]]) rs)"

definition shuffleArray_st :: "nat \<Rightarrow> 'a store \<Rightarrow> real list \<Rightarrow> error + (nat \<times> 'a store \<times> real list)" where
  "shuffleArray_st a h rs =
     (let shuffled = length h; h1 = h @ [h ! a]
      in case shuffle_loop_st (length (h1 ! shuffled) - 1) shuffled h1 rs of
           Inl e \<Rightarrow> Inl e
         | Inr (h2, rs') \<Rightarrow> Inr (shuffled, h2, rs'))"

section \<open>The quiz state\<close>

text \<open>
  A word of the catalog, as the data file has it (\<^verbatim>\<open>w.word\<close>, \<^verbatim>\<open>w.phonics\<close>,
  \<^verbatim>\<open>w.category\<close>), and the object \<^verbatim>\<open>this.gameState\<close> of \<^verbatim>\<open>initializeGame\<close>, with the two
  fields that \<^verbatim>\<open>generateWordPuzzle\<close> and \<^verbatim>\<open>generateLetterOptions\<close> add to it. The field
  \<^verbatim>\<open>timer\<close> holds the handle of the countdown interval, \<^verbatim>\<open>null\<close> being \<open>None\<close>.
\<close>

record word_record =
  word :: string
  phonics :: string
  category :: string

record game_state =
  currentQuestion :: nat
  score :: nat
  totalQuestions :: nat
  timeLeft :: int
  timer :: "nat option"
  gameWords :: "word_record list"
  currentWord :: "word_record option"
  correctAnswer :: jsval
  isAnswered :: bool
  displayWord :: string
  letterOptions :: "jsval list"

section \<open>generateSimilarLetters and generateLetterOptions\<close>

text \<open>
  The table \<^verbatim>\<open>similar\<close> of \<^verbatim>\<open>generateSimilarLetters\<close>, in the order of the source. A
  property key that is not a string is converted to one, so \<^verbatim>\<open>similar[undefined]\<close> reads
  the key \<^verbatim>\<open>"undefined"\<close>. The table is an object literal: a key naming a member of
  \<^verbatim>\<open>Object.prototype\<close> (\<^verbatim>\<open>constructor\<close>, \<^verbatim>\<open>toString\<close>, ...; all of seven characters or more)
  would read that member. \<^verbatim>\<open>generateWordPuzzle\<close>, the only caller, passes
  \<^verbatim>\<open>undefined\<close> or a string of one or two characters, and the lookup below is the one
  on the table's own entries.
\<close>

definition similar :: "(string \<times> string list) list" where
  "similar =
    [(''A'', [''E'', ''I'', ''O'']),
     (''B'', [''D'', ''P'', ''R'']),
     (''C'', [''G'', ''O'', ''Q'']),
     (''D'', [''B'', ''O'', ''P'']),
     (''E'', [''A'', ''F'', ''I'']),
     (''F'', [''E'', ''P'', ''T'']),
     (''G'', [''C'', ''O'', ''Q'']),
     (''H'', [''N'', ''R'', ''K'']),
     (''I'', [''A'', ''E'', ''L'']),
     (''J'', [''I'', ''L'', ''T'']),
     (''K'', [''H'', ''R'', ''X'']),
     (''L'', [''I'', ''J'', ''T'']),
     (''M'', [''N'', ''H'', ''W'']),
     (''N'', [''M'', ''H'', ''R'']),
     (''O'', [''C'', ''G'', ''Q'']),
     (''P'', [''B'', ''D'', ''F'']),
     (''Q'', [''C'', ''G'', ''O'']),
     (''R'', [''B'', ''H'', ''K'']),
     (''S'', [''C'', ''G'', ''Z'']),
     (''T'', [''F'', ''J'', ''L'']),
     (''U'', [''V'', ''W'', ''Y'']),
     (''V'', [''U'', ''W'', ''Y'']),
     (''W'', [''M'', ''U'', ''V'']),
     (''X'', [''K'', ''Y'', ''Z'']),
     (''Y'', [''U'', ''V'', ''X'']),
     (''Z'', [''S'', ''X'', ''Y'']),
     (''SH'', [''CH'', ''TH'', ''PH'']),
     (''CH'', [''SH'', ''TH'', ''PH'']),
     (''TH'', [''SH'', ''CH'', ''PH'']),
     (''PH'', [''SH'', ''CH'', ''TH'']),
     (''WH'', [''SH'', ''CH'', ''TH'']),
     (''ST'', [''SP'', ''SK'', ''SM'']),
     (''SP'', [''ST'', ''SK'', ''SM'']),
     (''SK'', [''ST'', ''SP'', ''SM'']),
     (''SM'', [''ST'', ''SP'', ''SK''])]"

fun propertyKey :: "jsval \<Rightarrow> string" where
  "propertyKey Undefined = ''undefined''"
| "propertyKey (Str s) = s"

text \<open>\<^verbatim>\<open>return similar[correctAnswer] || ['X', 'Y', 'Z'];\<close>\<close>

definition generateSimilarLetters :: "jsval \<Rightarrow> jsval list" where
  "generateSimilarLetters correct =
     (case map_of similar (propertyKey correct) of
        Some ws \<Rightarrow> map Str ws
      | None \<Rightarrow> [Str ''X'', Str ''Y'', Str ''Z''])"

text \<open>
  The first loop of \<^verbatim>\<open>generateLetterOptions\<close>:
  \<^verbatim>\<open>
  while (options.length < 4 && wrongOptions.length > 0) {
      const randomWrong = wrongOptions.splice(Math.floor(Math.random() * wrongOptions.length), 1)[0];
      if (!options.includes(randomWrong)) { options.push(randomWrong); }
  }
  \<close>
\<close>

fun addWrongOptions :: "jsval list \<Rightarrow> jsval list \<Rightarrow> real list \<Rightarrow> error + (jsval list \<times> real list)" where
  "addWrongOptions options wrongOptions [] =
     (if length options < 4 \<and> length wrongOptions > 0 then Inl OutOfRandomness
      else Inr (options, []))"
| "addWrongOptions options wrongOptions (u # rs) =
     (if length options < 4 \<and> length wrongOptions > 0 then
        (let k = randomInt u (length wrongOptions);
             randomWrong = wrongOptions ! k;
             spliced = take k wrongOptions @ drop (Suc k) wrongOptions
         in addWrongOptions
              (if randomWrong \<in> set options then options else options @ [randomWrong])
              spliced rs)
      else Inr (options, u # rs))"

text \<open>
  The second loop:
  \<^verbatim>\<open>
  while (options.length < 4) {
      const randomLetter = String.fromCharCode(65 + Math.floor(Math.random() * 26));
      if (!options.includes(randomLetter)) { options.push(randomLetter); }
  }
  \<close>
  It ends only when the random source produces enough letters that are not options yet.
\<close>

fun fillOptions :: "jsval list \<Rightarrow> real list \<Rightarrow> error + (jsval list \<times> real list)" where
  "fillOptions options [] =
     (if length options < 4 then Inl OutOfRandomness else Inr (options, []))"
| "fillOptions options (u # rs) =
     (if length options < 4 then
        (let randomLetter = Str [char_of (65 + randomInt u 26)]
         in fillOptions
              (if randomLetter \<in> set options then options else options @ [randomLetter]) rs)
      else Inr (options, u # rs))"

definition generateLetterOptions ::
  "jsval \<Rightarrow> 'a game_state_scheme \<Rightarrow> real list \<Rightarrow> error + ('a game_state_scheme \<times> real list)" where
  "generateLetterOptions correct s rs =
     (let options = [correct];
          wrongOptions = generateSimilarLetters correct
      in case addWrongOptions options wrongOptions rs of
           Inl e \<Rightarrow> Inl e
         | Inr (options1, rs1) \<Rightarrow>
            (case fillOptions options1 rs1 of
               Inl e \<Rightarrow> Inl e
             | Inr (options2, rs2) \<Rightarrow>
                (case shuffleArray options2 rs2 of
                   Inl e \<Rightarrow> Inl e
                 | Inr (shuffled, rs3) \<Rightarrow> Inr (s\<lparr>letterOptions := shuffled\<rparr>, rs3))))"

section \<open>generateWordPuzzle\<close>

text \<open>
  \<^verbatim>\<open>toUpperCase\<close> on the letters \<^verbatim>\<open>a\<close> to \<^verbatim>\<open>z\<close>; every other character is kept as it is.
\<close>

definition toUpperChar :: "char \<Rightarrow> char" where
  "toUpperChar c =
     (case map_of (zip ''abcdefghijklmnopqrstuvwxyz'' ''ABCDEFGHIJKLMNOPQRSTUVWXYZ'') c of
        Some d \<Rightarrow> d
      | None \<Rightarrow> c)"

definition toUpperCase :: "string \<Rightarrow> string" where
  "toUpperCase s = map toUpperChar s"

text \<open>\<^verbatim>\<open>w[i]\<close>, \<^verbatim>\<open>w.substring(a, b)\<close>, \<^verbatim>\<open>w.substring(a)\<close> and \<^verbatim>\<open>w.indexOf(d)\<close> (\<open>None\<close> for -1).\<close>

definition charAt :: "string \<Rightarrow> nat \<Rightarrow> jsval" where
  "charAt w i = (if i < length w then Str [w ! i] else Undefined)"

definition substring :: "string \<Rightarrow> nat \<Rightarrow> nat \<Rightarrow> string" where
  "substring w a b = take (max a b - min a b) (drop (min a b) w)"

definition substringFrom :: "string \<Rightarrow> nat \<Rightarrow> string" where
  "substringFrom w a = drop a w"

definition occursAt :: "string \<Rightarrow> string \<Rightarrow> nat \<Rightarrow> bool" where
  "occursAt d w i = (take (length d) (drop i w) = d)"

fun indexOf :: "string \<Rightarrow> string \<Rightarrow> nat option" where
  "indexOf [] d = (if d = [] then Some 0 else None)"
| "indexOf (c # cs) d =
     (if take (length d) (c # cs) = d then Some 0 else map_option Suc (indexOf cs d))"

definition digraphs :: "string list" where
  "digraphs = [''SH'', ''CH'', ''TH'', ''PH'', ''WH'']"

definition blends :: "string list" where
  "blends = [''ST'', ''SP'', ''SK'', ''SM'', ''SN'', ''SL'', ''SW'', ''SC'']"

text \<open>
  The loop \<^verbatim>\<open>for (const digraph of digraphs) { const index = word.indexOf(digraph);
  if (index !== -1) { ...; found = true; break; } }\<close>, and the same loop over the blends:
  the first entry of the list that occurs in the word, with the index of its first
  occurrence.
\<close>

fun findPart :: "string list \<Rightarrow> string \<Rightarrow> (string \<times> nat) option" where
  "findPart [] w = None"
| "findPart (d # ds) w =
     (case indexOf w d of Some index \<Rightarrow> Some (d, index) | None \<Rightarrow> findPart ds w)"

text \<open>
  The body of \<^verbatim>\<open>generateWordPuzzle\<close> up to the assignment of \<^verbatim>\<open>missingPart\<close> and
  \<^verbatim>\<open>displayWord\<close>, for the uppercased word \<open>w\<close>.
\<close>

definition maskOne :: "string \<Rightarrow> nat \<Rightarrow> jsval \<times> string" where
  "maskOne w position =
     (charAt w position, substring w 0 position @ ''_'' @ substringFrom w (position + 1))"

definition maskPart :: "string \<Rightarrow> string \<Rightarrow> nat \<Rightarrow> jsval \<times> string" where
  "maskPart w d index =
     (Str d, substring w 0 index @ replicate (length d) CHR ''_''
               @ substringFrom w (index + length d))"

definition chooseMissingPart :: "string \<Rightarrow> real list \<Rightarrow> error + ((jsval \<times> string) \<times> real list)" where
  "chooseMissingPart w rs =
     (if length w \<le> 3 then
        (case rs of
           [] \<Rightarrow> Inl OutOfRandomness
         | u # rs' \<Rightarrow> (let position = (if u > 1 / 2 then 1 else 2) in Inr (maskOne w position, rs')))
      else
        (case findPart digraphs w of
           Some (digraph, index) \<Rightarrow> Inr (maskPart w digraph index, rs)
         | None \<Rightarrow>
            (case findPart blends w of
               Some (blend, index) \<Rightarrow> Inr (maskPart w blend index, rs)
             | None \<Rightarrow>
                (case rs of
                   [] \<Rightarrow> Inl OutOfRandomness
                 | u # rs' \<Rightarrow>
                    (let position = randomInt u (length w) in Inr (maskOne w position, rs'))))))"

text \<open>
  \<^verbatim>\<open>generateWordPuzzle\<close> reads \<^verbatim>\<open>this.gameState.currentWord.word\<close>, which throws a
  \<^verbatim>\<open>TypeError\<close> when \<^verbatim>\<open>currentWord\<close> is \<^verbatim>\<open>undefined\<close>, and stores \<^verbatim>\<open>correctAnswer\<close>,
  \<^verbatim>\<open>displayWord\<close> and, through \<^verbatim>\<open>generateLetterOptions\<close>, \<^verbatim>\<open>letterOptions\<close>.
\<close>

definition generateWordPuzzle ::
  "'a game_state_scheme \<Rightarrow> real list \<Rightarrow> error + ('a game_state_scheme \<times> real list)" where
  "generateWordPuzzle s rs =
     (case currentWord s of
        None \<Rightarrow> Inl TypeError
      | Some cw \<Rightarrow>
         (case chooseMissingPart (toUpperCase (word cw)) rs of
            Inl e \<Rightarrow> Inl e
          | Inr ((missingPart, display), rs') \<Rightarrow>
              generateLetterOptions missingPart
                (s\<lparr>correctAnswer := missingPart, displayWord := display\<rparr>) rs'))"

text \<open>
  What the specification asks of a word with a digraph, in its own words: "scan the
  uppercased word left-to-right for the first occurrence of any digraph in the ordered set
  {SH, CH, TH, PH, WH}; if found, mask the whole digraph". \<open>spec_scanDigraph w i\<close> scans
  the rest \<open>w\<close> of the word, which starts at index \<open>i\<close>: at each index it tries the
  digraphs in their order, and the first index with a digraph wins.
\<close>

fun spec_scanDigraph :: "string \<Rightarrow> nat \<Rightarrow> (string \<times> nat) option" where
  "spec_scanDigraph [] i = None"
| "spec_scanDigraph (c # cs) i =
     (case find (\<lambda>d. take (length d) (c # cs) = d) digraphs of
        Some d \<Rightarrow> Some (d, i)
      | None \<Rightarrow> spec_scanDigraph cs (Suc i))"

section \<open>Selecting the words of a game\<close>

text \<open>The object that \<^verbatim>\<open>initializeGame\<close> assigns to \<^verbatim>\<open>this.gameState\<close>.\<close>

definition newGameState :: game_state where
  "newGameState =
     \<lparr>currentQuestion = 0, score = 0, totalQuestions = 10, timeLeft = 10, timer = None,
      gameWords = [], currentWord = None, correctAnswer = Str [], isAnswered = False,
      displayWord = [], letterOptions = []\<rparr>"

definition easyWord :: "word_record \<Rightarrow> bool" where
  "easyWord w = (category w = ''simple'' \<and> length (word w) \<le> 3)"

definition hardWord :: "word_record \<Rightarrow> bool" where
  "hardWord w = (category w \<in> set [''digraph'', ''blend'', ''trigraph'', ''vowel_team''])"

text \<open>
  \<^verbatim>\<open>
  const selectedEasy = this.shuffleArray([...easyWords]).slice(0, 5);
  const selectedHard = this.shuffleArray([...hardWords]).slice(0, 5);
  this.gameState.gameWords = [...selectedEasy, ...selectedHard];
  this.gameState.gameWords = this.shuffleArray(this.gameState.gameWords);
  \<close>
\<close>

definition selectGameWords ::
  "word_record list \<Rightarrow> 'a game_state_scheme \<Rightarrow> real list
     \<Rightarrow> error + ('a game_state_scheme \<times> real list)" where
  "selectGameWords ws s rs =
     (let easyWords = filter easyWord ws;
          hardWords = filter hardWord ws
      in case shuffleArray easyWords rs of
           Inl e \<Rightarrow> Inl e
         | Inr (shuffledEasy, rs1) \<Rightarrow>
            (case shuffleArray hardWords rs1 of
               Inl e \<Rightarrow> Inl e
             | Inr (shuffledHard, rs2) \<Rightarrow>
                (let selectedEasy = take 5 shuffledEasy;
                     selectedHard = take 5 shuffledHard
                 in case shuffleArray (selectedEasy @ selectedHard) rs2 of
                      Inl e \<Rightarrow> Inl e
                    | Inr (shuffled, rs3) \<Rightarrow> Inr (s\<lparr>gameWords := shuffled\<rparr>, rs3))))"

definition initializeGame :: "word_record list \<Rightarrow> real list \<Rightarrow> error + (game_state \<times> real list)" where
  "initializeGame ws rs = selectGameWords ws newGameState rs"

section \<open>The rounds of a game\<close>

text \<open>
  What the game shows and schedules is recorded beside the game state: the feedback
  messages, sounds, rounds and results shown (\<open>events\<close>), the handles of the intervals
  that are running (\<open>intervals\<close>), the delays of the \<^verbatim>\<open>setTimeout(() => this.nextQuestion(), ...)\<close>
  calls whose callback has not run yet (\<open>timeouts\<close>), an exception that leaves a callback
  (\<open>Uncaught\<close>), and the outputs that \<^verbatim>\<open>Math.random()\<close> will give (\<open>rnd\<close>). Writes to the
  page other than these (the timer digits, the classes of the buttons) are left out.
\<close>

datatype message = CorrectWellDone | WrongCorrectAnswer jsval | TimesUpCorrectAnswer jsval

datatype results_message = Outstanding | GreatJob | GoodEffort | KeepTrying

datatype event =
    Feedback bool message
  | Sound string
  | RoundShown string "jsval list"
  | Spoken string
  | Results nat nat results_message
  | Uncaught error

record session = game_state +
  intervals :: "nat list"
  nextHandle :: nat
  timeouts :: "nat list"
  events :: "event list"
  audioContext :: bool
  rnd :: "real list"

definition emit :: "event \<Rightarrow> 'a session_scheme \<Rightarrow> 'a session_scheme" where
  "emit e s = s\<lparr>events := events s @ [e]\<rparr>"

definition showFeedback :: "bool \<Rightarrow> message \<Rightarrow> 'a session_scheme \<Rightarrow> 'a session_scheme" where
  "showFeedback isCorrect msg s = emit (Feedback isCorrect msg) s"

definition playSound :: "string \<Rightarrow> 'a session_scheme \<Rightarrow> 'a session_scheme" where
  "playSound type s = (if \<not> audioContext s then s else emit (Sound type) s)"

definition clearInterval :: "nat option \<Rightarrow> 'a session_scheme \<Rightarrow> 'a session_scheme" where
  "clearInterval handle s =
     (case handle of None \<Rightarrow> s | Some h \<Rightarrow> s\<lparr>intervals := removeAll h (intervals s)\<rparr>)"

definition setNextQuestionTimeout :: "nat \<Rightarrow> 'a session_scheme \<Rightarrow> 'a session_scheme" where
  "setNextQuestionTimeout delay s = s\<lparr>timeouts := timeouts s @ [delay]\<rparr>"

text \<open>
  \<^verbatim>\<open>
  timeUp() {
      if (!this.gameState.isAnswered) {
          this.gameState.isAnswered = true;
          this.showFeedback(false, `Time's up! Correct answer: ${this.gameState.correctAnswer}`);
          setTimeout(() => this.nextQuestion(), 2000);
      }
  }
  \<close>
\<close>

definition timeUp :: "'a session_scheme \<Rightarrow> 'a session_scheme" where
  "timeUp s =
     (if \<not> isAnswered s then
        setNextQuestionTimeout 2000
          (showFeedback False (TimesUpCorrectAnswer (correctAnswer s)) (s\<lparr>isAnswered := True\<rparr>))
      else s)"

text \<open>
  The callback that \<^verbatim>\<open>startTimer\<close> gives to \<^verbatim>\<open>setInterval\<close>; it runs once a second for
  as long as the interval is not cleared:
  \<^verbatim>\<open>
  this.gameState.timeLeft--;
  if (this.gameState.timeLeft <= 0) { this.timeUp(); }
  \<close>
\<close>

definition tick :: "'a session_scheme \<Rightarrow> 'a session_scheme" where
  "tick s =
     (let s1 = s\<lparr>timeLeft := timeLeft s - 1\<rparr>
      in if timeLeft s1 \<le> 0 then timeUp s1 else s1)"

definition startTimer :: "'a session_scheme \<Rightarrow> 'a session_scheme" where
  "startTimer s =
     (let s1 = (case timer s of Some h \<Rightarrow> clearInterval (Some h) s | None \<Rightarrow> s);
          h = nextHandle s1
      in s1\<lparr>timer := Some h, intervals := intervals s1 @ [h], nextHandle := Suc h\<rparr>)"

text \<open>
  \<^verbatim>\<open>
  selectLetter(letter) {
      if (this.gameState.isAnswered) return;
      this.gameState.isAnswered = true;
      clearInterval(this.gameState.timer);
      const isCorrect = letter === this.gameState.correctAnswer;
      if (isCorrect) {
          this.gameState.score++; this.playSound('correct'); this.showFeedback(true, 'Correct! Well done!');
      } else {
          this.playSound('wrong'); this.showFeedback(false, `Wrong! Correct answer: ${this.gameState.correctAnswer}`);
      }
      ...
      setTimeout(() => this.nextQuestion(), 2500);
  }
  \<close>
\<close>

definition selectLetter :: "jsval \<Rightarrow> 'a session_scheme \<Rightarrow> 'a session_scheme" where
  "selectLetter letter s =
     (if isAnswered s then s
      else
        (let s1 = clearInterval (timer s) (s\<lparr>isAnswered := True\<rparr>);
             isCorrect = (letter = correctAnswer s1);
             s2 = (if isCorrect then
                     showFeedback True CorrectWellDone
                       (playSound ''correct'' (s1\<lparr>score := score s1 + 1\<rparr>))
                   else
                     showFeedback False (WrongCorrectAnswer (correctAnswer s1))
                       (playSound ''wrong'' s1))
         in setNextQuestionTimeout 2500 s2))"

text \<open>
  The message of \<^verbatim>\<open>endGame\<close>, from \<^verbatim>\<open>percentage = (score / totalQuestions) * 100\<close>. With
  \<^verbatim>\<open>totalQuestions\<close> zero the quotient is \<^verbatim>\<open>NaN\<close> for a zero score, which fails all three
  comparisons, and \<^verbatim>\<open>Infinity\<close> otherwise, which passes the first. The percentage is
  computed on the reals; for the ten questions of a game and a score of 0 to 10 the
  double-precision result is the same number.
\<close>

definition percentage :: "nat \<Rightarrow> nat \<Rightarrow> real" where
  "percentage sc tq = (real sc / real tq) * 100"

definition resultsMessage :: "nat \<Rightarrow> nat \<Rightarrow> results_message" where
  "resultsMessage sc tq =
     (if tq = 0 then (if sc = 0 then KeepTrying else Outstanding)
      else if percentage sc tq \<ge> 90 then Outstanding
      else if percentage sc tq \<ge> 70 then GreatJob
      else if percentage sc tq \<ge> 50 then GoodEffort
      else KeepTrying)"

definition endGame :: "'a session_scheme \<Rightarrow> 'a session_scheme" where
  "endGame s =
     (let s1 = clearInterval (timer s) s
      in emit (Results (score s1) (totalQuestions s1)
                 (resultsMessage (score s1) (totalQuestions s1))) s1)"

definition updateGameUI :: "'a session_scheme \<Rightarrow> 'a session_scheme" where
  "updateGameUI s = emit (RoundShown (displayWord s) (letterOptions s)) s"

definition speakCurrentGameWord :: "'a session_scheme \<Rightarrow> 'a session_scheme" where
  "speakCurrentGameWord s =
     (case currentWord s of None \<Rightarrow> s | Some cw \<Rightarrow> emit (Spoken (word cw)) s)"

text \<open>
  \<^verbatim>\<open>
  startNewGameRound() {
      if (this.gameState.currentQuestion >= this.gameState.totalQuestions) {
          this.endGame();
          return;
      }
      this.gameState.currentWord = this.gameState.gameWords[this.gameState.currentQuestion];
      this.gameState.isAnswered = false;
      this.gameState.timeLeft = 10;
      this.generateWordPuzzle();
      this.updateGameUI();
      this.startTimer();
      this.speakCurrentGameWord();
  }
  nextQuestion() {
      this.gameState.currentQuestion++;
      this.startNewGameRound();
  }
  \<close>
  An exception of \<^verbatim>\<open>generateWordPuzzle\<close> leaves the callback with the three assignments
  made and the rest of the round not started.
\<close>

definition startNewGameRound :: "'a session_scheme \<Rightarrow> 'a session_scheme" where
  "startNewGameRound s =
     (if currentQuestion s \<ge> totalQuestions s then endGame s
      else
        (let s1 = s\<lparr>currentWord :=
                      (if currentQuestion s < length (gameWords s)
                       then Some (gameWords s ! currentQuestion s) else None),
                    isAnswered := False, timeLeft := 10\<rparr>
         in case generateWordPuzzle s1 (rnd s1) of
              Inl e \<Rightarrow> emit (Uncaught e) s1
            | Inr (s2, rs') \<Rightarrow>
                speakCurrentGameWord (startTimer (updateGameUI (s2\<lparr>rnd := rs'\<rparr>)))))"

definition nextQuestion :: "'a session_scheme \<Rightarrow> 'a session_scheme" where
  "nextQuestion s = startNewGameRound (s\<lparr>currentQuestion := currentQuestion s + 1\<rparr>)"

text \<open>
  The host runs the callback of a \<^verbatim>\<open>setTimeout\<close> once, when its delay has passed; the
  scheduled callbacks are all \<^verbatim>\<open>() => this.nextQuestion()\<close>. \<open>runTimeout\<close> runs the oldest
  one.
\<close>

definition runTimeout :: "'a session_scheme \<Rightarrow> 'a session_scheme" where
  "runTimeout s =
     (case timeouts s of [] \<Rightarrow> s | delay # rest \<Rightarrow> nextQuestion (s\<lparr>timeouts := rest\<rparr>))"

text \<open>
  The game as \<^verbatim>\<open>initializeGame\<close> leaves it, with the selected words \<open>gw\<close>, on a page where
  no interval and no timeout is pending.
\<close>

definition newSession :: "word_record list \<Rightarrow> real list \<Rightarrow> session" where
  "newSession gw rs =
     \<lparr>currentQuestion = 0, score = 0, totalQuestions = 10, timeLeft = 10, timer = None,
      gameWords = gw, currentWord = None, correctAnswer = Str [], isAnswered = False,
      displayWord = [], letterOptions = [],
      intervals = [], nextHandle = 1, timeouts = [], events = [], audioContext = True,
      rnd = rs\<rparr>"

section \<open>Loading the catalog\<close>

text \<open>
  \<^verbatim>\<open>loadWords\<close> fetches the data file. The fetch fails, or answers with a status that is
  not ok, or with a body that is not JSON, or with the array of the words. In the last
  case:
  \<^verbatim>\<open>
  this.words = await response.json();
  this.filteredWords = [...this.words];
  this.wordLookup.clear();
  this.words.forEach(w => { if (w && w.word) this.wordLookup.set(w.word, w); });
  if (!Array.isArray(this.words) || this.words.length === 0) {
      throw new Error('No valid words found in data file');
  }
  \<close>
  and every exception is caught by
  \<^verbatim>\<open>this.words = []; this.filteredWords = []; this.showError(...)\<close>. The second component of
  the result says whether that handler ran.
\<close>

record catalog =
  words :: "word_record list"
  filteredWords :: "word_record list"
  wordLookup :: "string \<rightharpoonup> word_record"

datatype fetched = FetchFailed | StatusNotOk | BodyNotJson | Json "word_record list"

definition setLookup :: "(string \<rightharpoonup> word_record) \<Rightarrow> word_record \<Rightarrow> (string \<rightharpoonup> word_record)" where
  "setLookup m w = (if word w \<noteq> [] then m(word w \<mapsto> w) else m)"

definition loadWords :: "fetched \<Rightarrow> catalog \<Rightarrow> catalog \<times> bool" where
  "loadWords r c =
     (case r of
        Json ws \<Rightarrow>
          (let c1 = c\<lparr>words := ws, filteredWords := ws\<rparr>;
               c2 = c1\<lparr>wordLookup := foldl setLookup Map.empty (words c1)\<rparr>
           in if length (words c2) = 0
              then (c2\<lparr>words := [], filteredWords := []\<rparr>, True)
              else (c2, False))
      | _ \<Rightarrow> (c\<lparr>words := [], filteredWords := []\<rparr>, True))"

text \<open>The catalog of the constructor: no words, and \<^verbatim>\<open>new Map()\<close>.\<close>

definition newCatalog :: catalog where
  "newCatalog = \<lparr>words = [], filteredWords = [], wordLookup = Map.empty\<rparr>"

section \<open>Properties of the random source and of shuffleArray\<close>

lemma randomInt_less:
  assumes "0 \<le> u" "u < 1" "0 < n"
  shows "randomInt u n < n"
proof -
  have "u * real n < real n" using assms by simp
  then have "\<lfloor>u * real n\<rfloor> < int n" by (simp add: floor_less_iff)
  moreover have "0 \<le> \<lfloor>u * real n\<rfloor>" using assms by simp
  ultimately show ?thesis unfolding randomInt_def by linarith
qed

lemma valid_rnd_Cons [simp]: "valid_rnd (u # rs) \<longleftrightarrow> 0 \<le> u \<and> u < 1 \<and> valid_rnd rs"
  by (simp add: valid_rnd_def)

lemma valid_rnd_Nil [simp]: "valid_rnd []"
  by (simp add: valid_rnd_def)

lemma valid_rnd_drop: "valid_rnd rs \<Longrightarrow> valid_rnd (drop n rs)"
  unfolding valid_rnd_def list_all_iff by (auto dest: in_set_dropD)

text \<open>
  Each swap exchanges two cells that exist, so the loop keeps the multiset of the
  elements; it draws one random number per round.
\<close>

lemma shuffle_loop_perm:
  assumes "valid_rnd rs" "k < length xs \<or> k = 0" "k \<le> length rs"
  shows "\<exists>ys. shuffle_loop k xs rs = Inr (ys, drop k rs) \<and> mset ys = mset xs"
  using assms
proof (induction k arbitrary: xs rs)
  case 0
  then show ?case by simp
next
  case (Suc k)
  then obtain u rs' where rs: "rs = u # rs'" by (cases rs) auto
  let ?j = "randomInt u (Suc k + 1)"
  let ?xs' = "xs[Suc k := xs ! ?j, ?j := xs ! Suc k]"
  have u: "0 \<le> u" "u < 1" and v: "valid_rnd rs'" using Suc.prems(1) rs by auto
  have i: "Suc k < length xs" using Suc.prems(2) by simp
  have "?j < Suc k + 1" using u by (intro randomInt_less) auto
  then have j: "?j < length xs" using i by simp
  have m: "mset ?xs' = mset xs" using i j by (simp add: mset_swap)
  have "\<exists>ys. shuffle_loop k ?xs' rs' = Inr (ys, drop k rs') \<and> mset ys = mset ?xs'"
    using Suc.prems(3) i v rs by (intro Suc.IH) auto
  then show ?case using m rs by (simp add: Let_def)
qed

lemma shuffleArray_perm:
  assumes "valid_rnd rs" "length xs - 1 \<le> length rs"
  shows "\<exists>ys. shuffleArray xs rs = Inr (ys, drop (length xs - 1) rs) \<and> mset ys = mset xs"
  unfolding shuffleArray_def using assms by (intro shuffle_loop_perm) auto

text \<open>The loop on the store writes only the cell of the copy.\<close>

lemma shuffle_loop_st_eq:
  assumes "p < length h"
  shows "shuffle_loop_st k p h rs =
           (case shuffle_loop k (h ! p) rs of
              Inl e \<Rightarrow> Inl e
            | Inr (ys, rs') \<Rightarrow> Inr (h[p := ys], rs'))"
  using assms
proof (induction k arbitrary: h rs)
  case 0
  then show ?case by simp
next
  case (Suc k)
  show ?case
  proof (cases rs)
    case Nil
    then show ?thesis by simp
  next
    case (Cons u rs')
    then show ?thesis using Suc.prems by (simp add: Let_def Suc.IH split: sum.splits)
  qed
qed

text \<open>
  Claim C10. For every input array, \<^verbatim>\<open>shuffleArray\<close> returns a permutation of that array
  (the same elements with the same multiplicities) and leaves the input array itself
  unmodified. On the store: given the random numbers it draws (one for each element but
  the first), the call returns the address \<open>p\<close> of a new array that is a permutation of the
  array at \<open>a\<close>; \<open>p\<close> is not an address of the store before the call, and every array of
  that store, the input among them, is as it was.
\<close>

theorem shuffleArray_permutation_of_copy:
  assumes "a < length h" and "valid_rnd rs" and "length (h ! a) - 1 \<le> length rs"
  shows "\<exists>p h' rs'. shuffleArray_st a h rs = Inr (p, h', rs')
           \<and> mset (h' ! p) = mset (h ! a)
           \<and> shuffleArray (h ! a) rs = Inr (h' ! p, rs')
           \<and> p \<noteq> a \<and> length h \<le> p
           \<and> take (length h) h' = h"
proof -
  obtain ys where ys: "shuffleArray (h ! a) rs = Inr (ys, drop (length (h ! a) - 1) rs)"
    and m: "mset ys = mset (h ! a)"
    using shuffleArray_perm [OF assms(2,3)] by blast
  have "shuffleArray_st a h rs = Inr (length h, h @ [ys], drop (length (h ! a) - 1) rs)"
    using ys by (simp add: shuffleArray_st_def shuffle_loop_st_eq shuffleArray_def Let_def)
  then show ?thesis using m ys assms(1) by auto
qed

theorem shuffleArray_permutation_of_copy_witness:
  "(0::nat) < length [[1::nat, 2, 3, 4]] \<and> valid_rnd [3/10, 9/10, 1/2]
     \<and> (\<exists>p h' rs'. shuffleArray_st 0 [[1::nat, 2, 3, 4]] [3/10, 9/10, 1/2] = Inr (p, h', rs')
           \<and> mset (h' ! p) = mset [1::nat, 2, 3, 4]
           \<and> shuffleArray [1::nat, 2, 3, 4] [3/10, 9/10, 1/2] = Inr (h' ! p, rs')
           \<and> p \<noteq> 0 \<and> 1 \<le> p
           \<and> take 1 h' = [[1::nat, 2, 3, 4]])"
  using shuffleArray_permutation_of_copy [of 0 "[[1::nat, 2, 3, 4]]" "[3/10, 9/10, 1/2]"]
  by simp

section \<open>Properties of the options\<close>

text \<open>Every row of the table has three distinct entries, none of them its own key.\<close>

lemma similar_entries:
  "(k, ws) \<in> set similar \<Longrightarrow> length ws = 3 \<and> distinct ws \<and> k \<notin> set ws"
  by (auto simp: similar_def)

lemma similar_fallback:
  assumes "map_of similar k = None"
  shows "k \<noteq> ''X'' \<and> k \<noteq> ''Y'' \<and> k \<noteq> ''Z''"
proof -
  have "k \<notin> fst ` set similar" using assms by (simp add: map_of_eq_None_iff)
  moreover have "''X'' \<in> fst ` set similar" "''Y'' \<in> fst ` set similar" "''Z'' \<in> fst ` set similar"
    by (simp_all add: similar_def)
  ultimately show ?thesis by blast
qed

lemma similar_undefined: "map_of similar ''undefined'' = None"
  by (simp add: similar_def)

lemma generateSimilarLetters_props:
  "length (generateSimilarLetters c) = 3 \<and> distinct (generateSimilarLetters c)
     \<and> c \<notin> set (generateSimilarLetters c)"
proof (cases "map_of similar (propertyKey c)")
  case None
  then have k: "propertyKey c \<noteq> ''X'' \<and> propertyKey c \<noteq> ''Y'' \<and> propertyKey c \<noteq> ''Z''"
    by (rule similar_fallback)
  have "generateSimilarLetters c = [Str ''X'', Str ''Y'', Str ''Z'']"
    using None by (simp add: generateSimilarLetters_def)
  then show ?thesis using k by (cases c) auto
next
  case (Some ws)
  then have e: "(propertyKey c, ws) \<in> set similar" by (rule map_of_SomeD)
  have g: "generateSimilarLetters c = map Str ws"
    using Some by (simp add: generateSimilarLetters_def)
  have "c \<notin> set (map Str ws)"
  proof (cases c)
    case Undefined
    then show ?thesis by auto
  next
    case (Str a)
    then show ?thesis using similar_entries [OF e] by auto
  qed
  moreover have "distinct (map Str ws)"
    using similar_entries [OF e] by (simp add: distinct_map inj_on_def)
  ultimately show ?thesis using g similar_entries [OF e] by simp
qed

text \<open>
  The first loop moves every wrong option into the options when the wrong options are
  distinct, none of them is an option yet, and together they are four.
\<close>

lemma addWrongOptions_all:
  assumes "valid_rnd rs" "length wrong \<le> length rs" "distinct wrong"
    "set options \<inter> set wrong = {}" "length options + length wrong = 4"
  shows "\<exists>opts. addWrongOptions options wrong rs = Inr (opts, drop (length wrong) rs)
           \<and> mset opts = mset options + mset wrong"
  using assms
proof (induction "length wrong" arbitrary: options wrong rs)
  case 0
  then show ?case by (cases rs) auto
next
  case (Suc n)
  then obtain u rs' where rs: "rs = u # rs'" by (cases rs) auto
  let ?k = "randomInt u (length wrong)"
  let ?spliced = "take ?k wrong @ drop (Suc ?k) wrong"
  have u: "0 \<le> u" "u < 1" and v: "valid_rnd rs'" using Suc.prems(1) rs by auto
  have k: "?k < length wrong" using u Suc.hyps(2) by (intro randomInt_less) auto
  have w: "wrong = take ?k wrong @ wrong ! ?k # drop (Suc ?k) wrong"
    using k by (rule id_take_nth_drop)
  have notin: "wrong ! ?k \<notin> set options" using Suc.prems(4) k by (auto dest: nth_mem)
  have d: "distinct (take ?k wrong @ wrong ! ?k # drop (Suc ?k) wrong)"
    using Suc.prems(3) w by simp
  have ds: "distinct ?spliced" and fresh: "wrong ! ?k \<notin> set ?spliced"
    using d by auto
  have sub: "set ?spliced \<subseteq> set wrong"
    by (auto dest: in_set_takeD in_set_dropD)
  have len: "length ?spliced = n" using Suc.hyps(2) k by simp
  have ms: "mset wrong = mset ?spliced + {#wrong ! ?k#}"
    by (subst w) simp
  have "\<exists>opts. addWrongOptions (options @ [wrong ! ?k]) ?spliced rs'
          = Inr (opts, drop (length ?spliced) rs')
        \<and> mset opts = mset (options @ [wrong ! ?k]) + mset ?spliced"
  proof (rule Suc.hyps(1))
    show "n = length ?spliced" using len by simp
    show "valid_rnd rs'" by (rule v)
    show "length ?spliced \<le> length rs'" using len Suc.prems(2) Suc.hyps(2) rs by simp
    show "distinct ?spliced" by (rule ds)
    show "set (options @ [wrong ! ?k]) \<inter> set ?spliced = {}"
      using Suc.prems(4) sub fresh by auto
    show "length (options @ [wrong ! ?k]) + length ?spliced = 4"
      using len Suc.prems(5) Suc.hyps(2) by simp
  qed
  then obtain opts where
    o: "addWrongOptions (options @ [wrong ! ?k]) ?spliced rs' = Inr (opts, drop n rs')"
    and mo: "mset opts = mset (options @ [wrong ! ?k]) + mset ?spliced"
    using len by auto
  have cond: "length options < 4 \<and> length wrong > 0" using Suc.prems(5) Suc.hyps(2) by auto
  have "addWrongOptions options wrong rs = Inr (opts, drop n rs')"
    using rs cond notin o by (simp add: Let_def)
  moreover have "drop (length wrong) rs = drop n rs'" using rs Suc.hyps(2) [symmetric] by simp
  moreover have "mset opts = mset options + mset wrong" using mo ms by simp
  ultimately show ?case by simp
qed

lemma fillOptions_full: "length options = 4 \<Longrightarrow> fillOptions options rs = Inr (options, rs)"
  by (cases rs) auto

text \<open>
  So the first loop always fills the four options, the second loop finds nothing to do,
  and six random numbers are drawn: three by the first loop and three by the shuffle.
\<close>

lemma generateLetterOptions_four:
  assumes "valid_rnd rs" "6 \<le> length rs"
  shows "\<exists>opts. generateLetterOptions c s rs = Inr (s\<lparr>letterOptions := opts\<rparr>, drop 6 rs)
           \<and> length opts = 4 \<and> distinct opts \<and> count_list opts c = 1"
proof -
  let ?wrong = "generateSimilarLetters c"
  have p: "length ?wrong = 3" "distinct ?wrong" "c \<notin> set ?wrong"
    using generateSimilarLetters_props [of c] by auto
  have "\<exists>opts. addWrongOptions [c] ?wrong rs = Inr (opts, drop (length ?wrong) rs)
           \<and> mset opts = mset [c] + mset ?wrong"
    using assms p by (intro addWrongOptions_all) auto
  then obtain o1 where a: "addWrongOptions [c] ?wrong rs = Inr (o1, drop 3 rs)"
    and m1: "mset o1 = mset (c # ?wrong)"
    using p(1) by auto
  have l1: "length o1 = 4" using mset_eq_length [OF m1] p(1) by simp
  have f: "fillOptions o1 (drop 3 rs) = Inr (o1, drop 3 rs)" using l1 by (rule fillOptions_full)
  have "\<exists>ys. shuffleArray o1 (drop 3 rs) = Inr (ys, drop (length o1 - 1) (drop 3 rs)) \<and> mset ys = mset o1"
    using assms l1 by (intro shuffleArray_perm valid_rnd_drop) auto
  then obtain ys where sh: "shuffleArray o1 (drop 3 rs) = Inr (ys, drop 6 rs)"
    and m2: "mset ys = mset o1"
    using l1 by (auto simp: add.commute)
  have m3: "mset ys = mset (c # ?wrong)" using m1 m2 by simp
  have "length ys = length (c # ?wrong)" using m3 by (rule mset_eq_length)
  then have "length ys = 4" using p(1) by simp
  moreover have "distinct (c # ?wrong)" using p by simp
  then have "distinct ys" using m3 by (metis mset_eq_imp_distinct_iff)
  moreover have "count (mset ys) c = count (mset (c # ?wrong)) c" using m3 by simp
  then have "count_list ys c = 1" using p(3) by (simp add: count_mset count_list_0_iff)
  moreover have "generateLetterOptions c s rs = Inr (s\<lparr>letterOptions := ys\<rparr>, drop 6 rs)"
    using a f sh by (simp add: generateLetterOptions_def)
  ultimately show ?thesis by blast
qed

section \<open>Properties of generateWordPuzzle\<close>

lemma length_toUpperCase [simp]: "length (toUpperCase s) = length s"
  by (simp add: toUpperCase_def)

lemma chooseMissingPart_total:
  assumes "valid_rnd rs" "1 \<le> length rs"
  shows "\<exists>m d rs'. chooseMissingPart w rs = Inr ((m, d), rs')
           \<and> valid_rnd rs' \<and> length rs - 1 \<le> length rs'"
proof -
  obtain u rs1 where rs: "rs = u # rs1" using assms(2) by (cases rs) auto
  then have v: "valid_rnd rs1" using assms(1) by simp
  show ?thesis
    using rs v assms(1)
    by (auto simp: chooseMissingPart_def maskOne_def maskPart_def Let_def split: option.splits)
qed

lemma generateWordPuzzle_puzzle:
  assumes "currentWord s = Some cw" "valid_rnd rs" "7 \<le> length rs"
  shows "\<exists>m d rs1 opts rs'.
           chooseMissingPart (toUpperCase (word cw)) rs = Inr ((m, d), rs1)
         \<and> generateWordPuzzle s rs
             = Inr (s\<lparr>correctAnswer := m, displayWord := d, letterOptions := opts\<rparr>, rs')
         \<and> length opts = 4 \<and> distinct opts \<and> count_list opts m = 1"
proof -
  obtain m d rs1 where c: "chooseMissingPart (toUpperCase (word cw)) rs = Inr ((m, d), rs1)"
    and v: "valid_rnd rs1" and l: "length rs - 1 \<le> length rs1"
    using chooseMissingPart_total [of rs "toUpperCase (word cw)"] assms by auto
  have "6 \<le> length rs1" using l assms(3) by simp
  from generateLetterOptions_four [OF v this, of m "s\<lparr>correctAnswer := m, displayWord := d\<rparr>"]
  obtain opts where g: "generateLetterOptions m (s\<lparr>correctAnswer := m, displayWord := d\<rparr>) rs1
       = Inr (s\<lparr>correctAnswer := m, displayWord := d, letterOptions := opts\<rparr>, drop 6 rs1)"
    and o: "length opts = 4" "distinct opts" "count_list opts m = 1"
    by auto
  have "generateWordPuzzle s rs
          = Inr (s\<lparr>correctAnswer := m, displayWord := d, letterOptions := opts\<rparr>, drop 6 rs1)"
    using assms(1) c g by (simp add: generateWordPuzzle_def)
  then show ?thesis using c o by blast
qed

text \<open>
  Claim C1. For every generated puzzle, the options produced by \<^verbatim>\<open>generateLetterOptions\<close>
  have exactly 4 entries, all pairwise distinct, and contain the correct answer exactly
  once. \<^verbatim>\<open>generateWordPuzzle\<close> is the caller that gives \<^verbatim>\<open>generateLetterOptions\<close> its correct
  answer: for every current word, and every random source that holds the seven numbers a
  puzzle draws at most, it returns a puzzle whose options are four, pairwise distinct, and
  hold the stored correct answer exactly once.
\<close>

theorem puzzle_options_four_distinct:
  assumes "currentWord s = Some cw" and "valid_rnd rs" and "7 \<le> length rs"
  shows "\<exists>s' rs'. generateWordPuzzle s rs = Inr (s', rs')
           \<and> length (letterOptions s') = 4
           \<and> distinct (letterOptions s')
           \<and> count_list (letterOptions s') (correctAnswer s') = 1"
proof -
  from generateWordPuzzle_puzzle [OF assms]
  obtain m d opts rs' where
    g: "generateWordPuzzle s rs
          = Inr (s\<lparr>correctAnswer := m, displayWord := d, letterOptions := opts\<rparr>, rs')"
    and o: "length opts = 4" "distinct opts" "count_list opts m = 1"
    by blast
  show ?thesis using g o by simp
qed


theorem puzzle_options_four_distinct_witness:
  "currentWord (newGameState\<lparr>currentWord := Some \<lparr>word = ''cat'', phonics = ''k-a-t'', category = ''simple''\<rparr>\<rparr>)
      = Some \<lparr>word = ''cat'', phonics = ''k-a-t'', category = ''simple''\<rparr>
   \<and> valid_rnd [7/10, 1/2, 1/10, 0, 3/10, 9/10, 1/2]
   \<and> (\<exists>s' rs'. generateWordPuzzle
          (newGameState\<lparr>currentWord := Some \<lparr>word = ''cat'', phonics = ''k-a-t'', category = ''simple''\<rparr>\<rparr>)
          [7/10, 1/2, 1/10, 0, 3/10, 9/10, 1/2] = Inr (s', rs')
        \<and> length (letterOptions s') = 4
        \<and> distinct (letterOptions s')
        \<and> count_list (letterOptions s') (correctAnswer s') = 1)"
  using puzzle_options_four_distinct
    [of "newGameState\<lparr>currentWord := Some \<lparr>word = ''cat'', phonics = ''k-a-t'', category = ''simple''\<rparr>\<rparr>"
        "\<lparr>word = ''cat'', phonics = ''k-a-t'', category = ''simple''\<rparr>"
        "[7/10, 1/2, 1/10, 0, 3/10, 9/10, 1/2]"]
  by simp

section \<open>Which part of the word is masked\<close>

text \<open>
  \<^verbatim>\<open>indexOf\<close> gives the first index at which the part occurs, and no index when the
  part occurs nowhere.
\<close>

lemma indexOf_Some:
  "indexOf w d = Some i \<Longrightarrow> occursAt d w i \<and> (\<forall>j<i. \<not> occursAt d w j)"
proof (induction w arbitrary: i)
  case Nil
  then show ?case by (auto simp: occursAt_def split: if_splits)
next
  case (Cons c cs)
  show ?case
  proof (cases "take (length d) (c # cs) = d")
    case True
    then show ?thesis using Cons.prems by (simp add: occursAt_def)
  next
    case False
    then obtain i' where i': "indexOf cs d = Some i'" "i = Suc i'"
      using Cons.prems by auto
    have ih: "occursAt d cs i' \<and> (\<forall>j<i'. \<not> occursAt d cs j)" using Cons.IH i'(1) by simp
    have "occursAt d (c # cs) (Suc i')" using ih by (simp add: occursAt_def)
    moreover have "\<not> occursAt d (c # cs) j" if "j < Suc i'" for j
    proof (cases j)
      case 0
      then show ?thesis using False by (simp add: occursAt_def)
    next
      case (Suc j')
      then show ?thesis using ih that by (simp add: occursAt_def)
    qed
    ultimately show ?thesis using i'(2) by simp
  qed
qed

lemma indexOf_None: "indexOf w d = None \<Longrightarrow> \<not> occursAt d w j"
proof (induction w arbitrary: j)
  case Nil
  then show ?case by (auto simp: occursAt_def split: if_splits)
next
  case (Cons c cs)
  then have n: "take (length d) (c # cs) \<noteq> d" and r: "indexOf cs d = None"
    by (auto split: if_splits)
  show ?case
  proof (cases j)
    case 0
    then show ?thesis using n by (simp add: occursAt_def)
  next
    case (Suc j')
    then show ?thesis using Cons.IH [OF r, of j'] by (simp add: occursAt_def)
  qed
qed

text \<open>
  The loop over the parts stops at the first part of the list that occurs in the word:
  no earlier part of the list occurs anywhere in the word.
\<close>

lemma findPart_Some:
  "findPart ds w = Some (d, i) \<Longrightarrow>
     \<exists>pre post. ds = pre @ d # post \<and> (\<forall>x\<in>set pre. \<forall>k. \<not> occursAt x w k)
        \<and> indexOf w d = Some i"
proof (induction ds)
  case Nil
  then show ?case by simp
next
  case (Cons e es)
  show ?case
  proof (cases "indexOf w e")
    case None
    then have "findPart es w = Some (d, i)" using Cons.prems by simp
    then obtain pre post where p: "es = pre @ d # post"
      "\<forall>x\<in>set pre. \<forall>k. \<not> occursAt x w k" "indexOf w d = Some i"
      using Cons.IH by blast
    have "e # es = (e # pre) @ d # post" using p(1) by simp
    moreover have "\<forall>x\<in>set (e # pre). \<forall>k. \<not> occursAt x w k"
      using p(2) indexOf_None [OF None] by simp
    ultimately show ?thesis using p(3) by blast
  next
    case (Some a)
    then have "e = d" "a = i" using Cons.prems by auto
    then have "e # es = [] @ d # es" "indexOf w d = Some i" using Some by auto
    then show ?thesis by fastforce
  qed
qed

lemma findPart_None: "findPart ds w = None \<Longrightarrow> x \<in> set ds \<Longrightarrow> \<not> occursAt x w k"
  by (induction ds) (auto split: option.splits dest: indexOf_None)

text \<open>
  Claim C2, as amended. For every word of length greater than 3 whose uppercased text
  contains at least one of the digraphs SH, CH, TH, PH, WH, \<^verbatim>\<open>generateWordPuzzle\<close> masks
  the first digraph of that list that occurs in the word, at its leftmost occurrence; the
  digraphs before it in the list occur nowhere in the word. The whole digraph is masked
  (two placeholders, all other characters kept) and the correct answer is that digraph,
  never a blend or a single letter.
\<close>

theorem digraph_first_in_list_masked:
  assumes "currentWord s = Some cw" and "3 < length (word cw)"
    and "e \<in> set digraphs" and "occursAt e (toUpperCase (word cw)) j"
    and "valid_rnd rs" and "7 \<le> length rs"
  shows "\<exists>s' rs' pre d post i.
           generateWordPuzzle s rs = Inr (s', rs')
         \<and> digraphs = pre @ d # post
         \<and> (\<forall>x\<in>set pre. \<forall>k. \<not> occursAt x (toUpperCase (word cw)) k)
         \<and> occursAt d (toUpperCase (word cw)) i
         \<and> (\<forall>k<i. \<not> occursAt d (toUpperCase (word cw)) k)
         \<and> correctAnswer s' = Str d
         \<and> displayWord s' = take i (toUpperCase (word cw)) @ ''__''
                               @ drop (i + 2) (toUpperCase (word cw))"
proof -
  let ?w = "toUpperCase (word cw)"
  have "findPart digraphs ?w \<noteq> None"
    using findPart_None [of digraphs ?w e j] assms(3,4) by blast
  then obtain d i where f: "findPart digraphs ?w = Some (d, i)"
    by (cases "findPart digraphs ?w") auto
  from findPart_Some [OF f] obtain pre post where
    p: "digraphs = pre @ d # post" "\<forall>x\<in>set pre. \<forall>k. \<not> occursAt x ?w k"
    and ix: "indexOf ?w d = Some i"
    by blast
  have "d \<in> set digraphs" using p(1) by (metis in_set_conv_decomp)
  then have ld: "length d = 2" by (auto simp: digraphs_def)
  have c: "chooseMissingPart ?w rs = Inr (maskPart ?w d i, rs)"
    using assms(2) f by (simp add: chooseMissingPart_def)
  from generateWordPuzzle_puzzle [OF assms(1,5,6)] c
  obtain opts rs' where
    g: "generateWordPuzzle s rs
          = Inr (s\<lparr>correctAnswer := fst (maskPart ?w d i), displayWord := snd (maskPart ?w d i),
                   letterOptions := opts\<rparr>, rs')"
    by auto
  have m: "maskPart ?w d i = (Str d, take i ?w @ ''__'' @ drop (i + 2) ?w)"
    using ld by (simp add: maskPart_def substring_def substringFrom_def numeral_2_eq_2)
  show ?thesis using g m p indexOf_Some [OF ix] by auto
qed

text \<open>The definitions that evaluating a puzzle on a concrete word unfolds.\<close>

lemmas puzzle_defs = generateWordPuzzle_def chooseMissingPart_def maskOne_def maskPart_def
  charAt_def substring_def substringFrom_def toUpperCase_def toUpperChar_def
  generateLetterOptions_def generateSimilarLetters_def similar_def shuffleArray_def
  randomInt_def newGameState_def digraphs_def blends_def Let_def

text \<open>The word "which" has the digraph WH at index 0 and the digraph CH at index 3.\<close>

theorem digraph_first_in_list_masked_witness:
  "currentWord (newGameState\<lparr>currentWord := Some \<lparr>word = ''which'', phonics = ''w-i-ch'', category = ''digraph''\<rparr>\<rparr>)
      = Some \<lparr>word = ''which'', phonics = ''w-i-ch'', category = ''digraph''\<rparr>
   \<and> 3 < length (word \<lparr>word = ''which'', phonics = ''w-i-ch'', category = ''digraph''\<rparr>)
   \<and> ''WH'' \<in> set digraphs
   \<and> occursAt ''WH'' (toUpperCase (word \<lparr>word = ''which'', phonics = ''w-i-ch'', category = ''digraph''\<rparr>)) 0
   \<and> valid_rnd [1/2, 1/10, 0, 3/10, 9/10, 1/2, 0]
   \<and> (\<exists>s' rs' pre d post i.
           generateWordPuzzle
             (newGameState\<lparr>currentWord := Some \<lparr>word = ''which'', phonics = ''w-i-ch'', category = ''digraph''\<rparr>\<rparr>)
             [1/2, 1/10, 0, 3/10, 9/10, 1/2, 0] = Inr (s', rs')
         \<and> digraphs = pre @ d # post
         \<and> (\<forall>x\<in>set pre. \<forall>k. \<not> occursAt x (toUpperCase ''which'') k)
         \<and> occursAt d (toUpperCase ''which'') i
         \<and> (\<forall>k<i. \<not> occursAt d (toUpperCase ''which'') k)
         \<and> correctAnswer s' = Str d
         \<and> displayWord s' = take i (toUpperCase ''which'') @ ''__''
                               @ drop (i + 2) (toUpperCase ''which''))"
proof -
  have h: "''WH'' \<in> set digraphs" by (simp add: digraphs_def)
  have o: "occursAt ''WH'' (toUpperCase (word \<lparr>word = ''which'', phonics = ''w-i-ch'', category = ''digraph''\<rparr>)) 0"
    by (simp add: occursAt_def toUpperCase_def toUpperChar_def)
  show ?thesis
    using h o digraph_first_in_list_masked
      [of "newGameState\<lparr>currentWord := Some \<lparr>word = ''which'', phonics = ''w-i-ch'', category = ''digraph''\<rparr>\<rparr>"
          "\<lparr>word = ''which'', phonics = ''w-i-ch'', category = ''digraph''\<rparr>"
          "''WH''" 0 "[1/2, 1/10, 0, 3/10, 9/10, 1/2, 0]"]
    by simp
qed

text \<open>
  Claim C2 as stated asks for the leftmost occurrence of any digraph. In "which" that is
  WH at index 0, which the scan of the specification finds; \<^verbatim>\<open>generateWordPuzzle\<close> masks CH
  at index 3, because CH comes before WH in the list.
\<close>

theorem leftmost_digraph_counterexample:
  "generateWordPuzzle
     (newGameState\<lparr>currentWord := Some \<lparr>word = ''which'', phonics = ''w-i-ch'', category = ''digraph''\<rparr>\<rparr>)
     [1/2, 1/10, 0, 3/10, 9/10, 1/2]
   = Inr (newGameState\<lparr>currentWord := Some \<lparr>word = ''which'', phonics = ''w-i-ch'', category = ''digraph''\<rparr>,
                       correctAnswer := Str ''CH'', displayWord := ''WHI__'',
                       letterOptions := [Str ''CH'', Str ''PH'', Str ''SH'', Str ''TH'']\<rparr>, [])
   \<and> spec_scanDigraph (toUpperCase ''which'') 0 = Some (''WH'', 0)
   \<and> maskPart (toUpperCase ''which'') ''WH'' 0 = (Str ''WH'', ''__ICH'')"
  by (simp add: puzzle_defs)

text \<open>
  Claim C3. For every word whose text length is at most 3, \<^verbatim>\<open>generateWordPuzzle\<close> masks
  exactly one character, at index 1 or index 2, never at index 0; the masked display
  replaces that one character with a single placeholder and preserves all other
  characters. The branch is taken on \<^verbatim>\<open>word.length <= 3\<close> and picks index 1 or 2 without
  looking at the length; its comment reads "For 3-letter words, remove middle or last
  letter". For the two-letter word "at" and a random number of at most 0.5 the index is 2,
  which is past the end: no character is masked, the placeholder is appended to the whole
  word, and the correct answer is \<^verbatim>\<open>undefined\<close>.
\<close>

theorem two_letter_word_out_of_range:
  "generateWordPuzzle
     (newGameState\<lparr>currentWord := Some \<lparr>word = ''at'', phonics = ''a-t'', category = ''simple''\<rparr>\<rparr>)
     [3/10, 1/2, 1/10, 0, 3/10, 9/10, 1/2]
   = Inr (newGameState\<lparr>currentWord := Some \<lparr>word = ''at'', phonics = ''a-t'', category = ''simple''\<rparr>,
                       correctAnswer := Undefined, displayWord := ''AT_'',
                       letterOptions := [Undefined, Str ''Z'', Str ''X'', Str ''Y'']\<rparr>, [])"
  by (simp add: puzzle_defs)

text \<open>
  Claim C6. \<^verbatim>\<open>generateWordPuzzle\<close> fails with \<^verbatim>\<open>InvalidWordError\<close> when the word's text is
  empty; for no other input does it fail. Elsewhere the code rejects a word with an empty
  text: \<^verbatim>\<open>loadWords\<close> keeps it out of the lookup (\<^verbatim>\<open>if (w && w.word)\<close>) and
  \<^verbatim>\<open>createWordButton\<close> reports it as an invalid word object (\<^verbatim>\<open>if (!wordObj || !wordObj.word)\<close>).
  The game has no such check: a word with an empty text and the category \<^verbatim>\<open>simple\<close> passes
  the filter of the easy words, and \<^verbatim>\<open>generateWordPuzzle\<close> does not fail on it. It takes the
  branch of the short words and returns a puzzle that shows only the placeholder and has
  \<^verbatim>\<open>undefined\<close> as its correct answer.
\<close>

theorem empty_word_puzzle_generated:
  "easyWord \<lparr>word = [], phonics = [], category = ''simple''\<rparr>
   \<and> generateWordPuzzle
       (newGameState\<lparr>currentWord := Some \<lparr>word = [], phonics = [], category = ''simple''\<rparr>\<rparr>)
       [3/10, 1/2, 1/10, 0, 3/10, 9/10, 1/2]
     = Inr (newGameState\<lparr>currentWord := Some \<lparr>word = [], phonics = [], category = ''simple''\<rparr>,
                         correctAnswer := Undefined, displayWord := ''_'',
                         letterOptions := [Undefined, Str ''Z'', Str ''X'', Str ''Y'']\<rparr>, [])"
  by (simp add: puzzle_defs easyWord_def)

text \<open>
  On a word of exactly three letters the branch of the short words does what its comment
  says: the middle or the last letter is replaced by the placeholder, and it is the
  correct answer.
\<close>

lemma three_letter_word_mask:
  assumes "currentWord s = Some cw" and "length (word cw) = 3"
    and "valid_rnd rs" and "7 \<le> length rs"
  shows "\<exists>s' rs' position. generateWordPuzzle s rs = Inr (s', rs')
           \<and> (position = 1 \<or> position = 2)
           \<and> correctAnswer s' = Str [toUpperCase (word cw) ! position]
           \<and> displayWord s' = (toUpperCase (word cw))[position := CHR ''_'']"
proof -
  let ?w = "toUpperCase (word cw)"
  obtain u rs1 where rs: "rs = u # rs1" using assms(4) by (cases rs) auto
  define position :: nat where "position = (if u > 1 / 2 then 1 else 2)"
  have p: "position = 1 \<or> position = 2" by (simp add: position_def)
  then have lt: "position < length ?w" using assms(2) by auto
  have c: "chooseMissingPart ?w rs = Inr (maskOne ?w position, rs1)"
    using assms(2) rs by (simp add: chooseMissingPart_def position_def Let_def)
  have m: "maskOne ?w position = (Str [?w ! position], ?w[position := CHR ''_''])"
    using lt by (simp add: maskOne_def charAt_def substring_def substringFrom_def
        upd_conv_take_nth_drop)
  from generateWordPuzzle_puzzle [OF assms(1,3,4)] c m
  obtain opts rs' where
    "generateWordPuzzle s rs
       = Inr (s\<lparr>correctAnswer := Str [?w ! position], displayWord := ?w[position := CHR ''_''],
                letterOptions := opts\<rparr>, rs')"
    by auto
  then show ?thesis using p by auto
qed

section \<open>Properties of the rounds\<close>

text \<open>The definitions that a step of the session unfolds.\<close>

lemmas session_defs = selectLetter_def timeUp_def tick_def clearInterval_def showFeedback_def
  playSound_def emit_def setNextQuestionTimeout_def

text \<open>
  Claim C4. In any round, if \<^verbatim>\<open>selectLetter\<close> is called when \<^verbatim>\<open>isAnswered\<close> is already true,
  the call is a no-op: the score and all other session state are unchanged, and no
  feedback event is emitted; only the first answer of a round affects the score. The state
  compared here holds the game state, the events shown, and the pending intervals and
  timeouts, so "the same state" covers all of them. A second answer leaves the state of
  the first, and so does an answer that comes after the time was up.
\<close>

theorem selectLetter_answered_noop:
  "(isAnswered s \<longrightarrow> selectLetter letter s = s)
   \<and> selectLetter letter2 (selectLetter letter1 s) = selectLetter letter1 s
   \<and> score (selectLetter letter2 (selectLetter letter1 s)) = score (selectLetter letter1 s)
   \<and> selectLetter letter (timeUp s) = timeUp s"
proof -
  have a: "selectLetter l x = x" if "isAnswered x" for l and x :: "'a session_scheme"
    using that by (simp add: selectLetter_def)
  have b: "isAnswered (selectLetter l x)" for l and x :: "'a session_scheme"
    by (simp add: session_defs Let_def split: option.splits)
  have c: "isAnswered (timeUp x)" for x :: "'a session_scheme"
    by (simp add: session_defs)
  show ?thesis using a b c by simp
qed

text \<open>A round whose correct answer is A: the answer A scores, the answer E after it changes nothing.\<close>

theorem selectLetter_answered_noop_witness:
  "isAnswered (selectLetter (Str ''A'') ((newSession [] [])\<lparr>correctAnswer := Str ''A''\<rparr>))
   \<and> selectLetter (Str ''E'') (selectLetter (Str ''A'') ((newSession [] [])\<lparr>correctAnswer := Str ''A''\<rparr>))
       = selectLetter (Str ''A'') ((newSession [] [])\<lparr>correctAnswer := Str ''A''\<rparr>)
   \<and> score (selectLetter (Str ''A'') ((newSession [] [])\<lparr>correctAnswer := Str ''A''\<rparr>)) = 1
   \<and> score (selectLetter (Str ''A'') (selectLetter (Str ''A'') ((newSession [] [])\<lparr>correctAnswer := Str ''A''\<rparr>))) = 1"
proof -
  have i: "isAnswered (selectLetter (Str ''A'') ((newSession [] [])\<lparr>correctAnswer := Str ''A''\<rparr>))"
    by (simp add: session_defs newSession_def Let_def)
  have s: "score (selectLetter (Str ''A'') ((newSession [] [])\<lparr>correctAnswer := Str ''A''\<rparr>)) = 1"
    by (simp add: session_defs newSession_def Let_def)
  show ?thesis
    using i s selectLetter_answered_noop
      [of "selectLetter (Str ''A'') ((newSession [] [])\<lparr>correctAnswer := Str ''A''\<rparr>)" "Str ''A''"
          "Str ''E''" "Str ''A''"]
      selectLetter_answered_noop
      [of "(newSession [] [])\<lparr>correctAnswer := Str ''A''\<rparr>" "Str ''A''" "Str ''A''" "Str ''A''"]
    by simp
qed

text \<open>
  A new round changes neither the number of the question nor the score, and schedules no
  \<^verbatim>\<open>nextQuestion\<close>.
\<close>

lemma generateWordPuzzle_frame:
  "generateWordPuzzle s rs = Inr (s', rs') \<Longrightarrow>
     \<exists>m d opts. s' = s\<lparr>correctAnswer := m, displayWord := d, letterOptions := opts\<rparr>"
  by (auto simp: generateWordPuzzle_def generateLetterOptions_def Let_def
      split: option.splits sum.splits prod.splits)

lemma startNewGameRound_frame:
  "currentQuestion (startNewGameRound s) = currentQuestion s
   \<and> timeouts (startNewGameRound s) = timeouts s
   \<and> score (startNewGameRound s) = score s"
proof (cases "currentQuestion s \<ge> totalQuestions s")
  case True
  then show ?thesis
    by (simp add: startNewGameRound_def endGame_def emit_def clearInterval_def Let_def
        split: option.splits)
next
  case False
  let ?s1 = "s\<lparr>currentWord := (if currentQuestion s < length (gameWords s)
                       then Some (gameWords s ! currentQuestion s) else None),
                isAnswered := False, timeLeft := 10\<rparr>"
  show ?thesis
  proof (cases "generateWordPuzzle ?s1 (rnd ?s1)")
    case (Inl e)
    then show ?thesis using False by (simp add: startNewGameRound_def emit_def Let_def)
  next
    case (Inr r)
    obtain s2 rs' where r: "r = (s2, rs')" by (cases r)
    from generateWordPuzzle_frame [OF Inr [unfolded r]]
    obtain m d opts where s2: "s2 = ?s1\<lparr>correctAnswer := m, displayWord := d, letterOptions := opts\<rparr>"
      by blast
    show ?thesis
      using False Inr r s2
      by (simp add: startNewGameRound_def speakCurrentGameWord_def startTimer_def
          updateGameUI_def emit_def clearInterval_def Let_def split: option.splits)
  qed
qed

text \<open>
  The countdown of a round in which no answer is given: the ticks before the time is up
  only count down, the tick that reaches zero runs \<^verbatim>\<open>timeUp\<close>, and the ticks after it, which
  still come because \<^verbatim>\<open>timeUp\<close> does not clear the interval, only count down again.
\<close>

lemma tick_before:
  "\<not> isAnswered s \<Longrightarrow> 1 < timeLeft s \<Longrightarrow> tick s = s\<lparr>timeLeft := timeLeft s - 1\<rparr>"
  by (simp add: tick_def Let_def)

lemma tick_answered:
  "isAnswered s \<Longrightarrow> tick s = s\<lparr>timeLeft := timeLeft s - 1\<rparr>"
  by (simp add: tick_def timeUp_def Let_def)

lemma ticks_before:
  "\<not> isAnswered s \<Longrightarrow> int n < timeLeft s \<Longrightarrow> (tick ^^ n) s = s\<lparr>timeLeft := timeLeft s - int n\<rparr>"
proof (induction n)
  case 0
  then show ?case by simp
next
  case (Suc n)
  then have "(tick ^^ n) s = s\<lparr>timeLeft := timeLeft s - int n\<rparr>" by simp
  then show ?case using Suc.prems by (simp add: tick_before)
qed

lemma ticks_after:
  assumes "\<not> isAnswered s" "0 < timeLeft s" "timeLeft s \<le> int n"
  shows "(tick ^^ n) s =
           s\<lparr>timeLeft := timeLeft s - int n, isAnswered := True,
             events := events s @ [Feedback False (TimesUpCorrectAnswer (correctAnswer s))],
             timeouts := timeouts s @ [2000]\<rparr>"
  using assms(3)
proof (induction n)
  case 0
  then show ?case using assms(2) by simp
next
  case (Suc n)
  show ?case
  proof (cases "timeLeft s \<le> int n")
    case True
    then show ?thesis using Suc.IH by (simp add: tick_answered)
  next
    case False
    then have n: "int n < timeLeft s" by simp
    then have "(tick ^^ n) s = s\<lparr>timeLeft := timeLeft s - int n\<rparr>"
      using assms(1) by (rule ticks_before [rotated])
    then have "(tick ^^ Suc n) s = tick (s\<lparr>timeLeft := timeLeft s - int n\<rparr>)"
      by simp
    also have "\<dots> = s\<lparr>timeLeft := timeLeft s - int (Suc n), isAnswered := True,
             events := events s @ [Feedback False (TimesUpCorrectAnswer (correctAnswer s))],
             timeouts := timeouts s @ [2000]\<rparr>"
      using Suc.prems n assms(1)
      by (simp add: tick_def timeUp_def showFeedback_def emit_def setNextQuestionTimeout_def Let_def)
    finally show ?thesis .
  qed
qed

text \<open>
  Claim C5. In any round where no answer is submitted, once \<^verbatim>\<open>timeLeft\<close> reaches 0 the
  timeout handler fires exactly one "time up" feedback event naming the correct answer and
  the round advances exactly once, even though the countdown tick may fire again
  afterwards. After any number \<open>n\<close> of ticks of a round that started unanswered with time
  left: no event and no timeout is added while \<open>n\<close> is below the time left; from then on,
  whatever \<open>n\<close> is, exactly one feedback event (the "time up" message with the correct
  answer) and exactly one scheduled \<^verbatim>\<open>nextQuestion\<close> are added. The interval is still running,
  the score and the question number are unchanged; and running the scheduled callback moves
  to the next question, once, and leaves nothing scheduled.
\<close>

theorem timeout_fires_once:
  assumes "\<not> isAnswered s" and "0 < timeLeft s"
  shows "events ((tick ^^ n) s)
           = events s @ (if int n < timeLeft s then []
                         else [Feedback False (TimesUpCorrectAnswer (correctAnswer s))])
       \<and> timeouts ((tick ^^ n) s) = timeouts s @ (if int n < timeLeft s then [] else [2000])
       \<and> intervals ((tick ^^ n) s) = intervals s
       \<and> score ((tick ^^ n) s) = score s
       \<and> currentQuestion ((tick ^^ n) s) = currentQuestion s
       \<and> (timeouts s = [] \<and> timeLeft s \<le> int n \<longrightarrow>
            currentQuestion (runTimeout ((tick ^^ n) s)) = currentQuestion s + 1
          \<and> timeouts (runTimeout ((tick ^^ n) s)) = [])"
proof (cases "int n < timeLeft s")
  case True
  then show ?thesis using ticks_before [OF assms(1) True] by simp
next
  case False
  then have le: "timeLeft s \<le> int n" by simp
  note t = ticks_after [OF assms le]
  have "currentQuestion (runTimeout ((tick ^^ n) s)) = currentQuestion s + 1
      \<and> timeouts (runTimeout ((tick ^^ n) s)) = []" if "timeouts s = []"
    using that t by (simp add: runTimeout_def nextQuestion_def startNewGameRound_frame)
  then show ?thesis using False t by simp
qed

text \<open>Twelve ticks from the ten seconds of a new round: two ticks come after the time is up.\<close>

theorem timeout_fires_once_witness:
  "\<not> isAnswered (newSession [] []) \<and> 0 < timeLeft (newSession [] [])
   \<and> events ((tick ^^ 12) (newSession [] []))
        = [Feedback False (TimesUpCorrectAnswer (Str []))]
   \<and> timeouts ((tick ^^ 12) (newSession [] [])) = [2000]
   \<and> events ((tick ^^ 9) (newSession [] [])) = []
   \<and> currentQuestion (runTimeout ((tick ^^ 12) (newSession [] []))) = 1
   \<and> timeouts (runTimeout ((tick ^^ 12) (newSession [] []))) = []"
proof -
  have h: "\<not> isAnswered (newSession [] [])" "0 < timeLeft (newSession [] [])"
    "timeLeft (newSession [] []) = 10" "events (newSession [] []) = []"
    "timeouts (newSession [] []) = []" "correctAnswer (newSession [] []) = Str []"
    "currentQuestion (newSession [] []) = 0"
    by (simp_all add: newSession_def)
  show ?thesis
    using h timeout_fires_once [OF h(1,2), of 12] timeout_fires_once [OF h(1,2), of 9]
    by simp
qed

text \<open>
  Claim C8. When the session finishes, the emitted encouragement message tier is
  determined solely by the percentage score in four fixed bands: at least 90% gives the top
  tier, at least 70% (and below 90%) the high tier, at least 50% (and below 70%) the mid
  tier, and anything lower the encouragement tier. \<^verbatim>\<open>endGame\<close> adds one event, the results
  with the message of the band of the percentage.
\<close>

theorem results_message_bands:
  assumes "0 < totalQuestions s"
  shows "\<exists>m. events (endGame s) = events s @ [Results (score s) (totalQuestions s) m]
           \<and> m = resultsMessage (score s) (totalQuestions s)
           \<and> (90 \<le> percentage (score s) (totalQuestions s) \<longrightarrow> m = Outstanding)
           \<and> (70 \<le> percentage (score s) (totalQuestions s)
                \<and> percentage (score s) (totalQuestions s) < 90 \<longrightarrow> m = GreatJob)
           \<and> (50 \<le> percentage (score s) (totalQuestions s)
                \<and> percentage (score s) (totalQuestions s) < 70 \<longrightarrow> m = GoodEffort)
           \<and> (percentage (score s) (totalQuestions s) < 50 \<longrightarrow> m = KeepTrying)"
  using assms
  by (simp add: endGame_def emit_def clearInterval_def resultsMessage_def Let_def
      split: option.splits)

text \<open>Seven of ten is 70 percent, the lower end of the second band.\<close>

theorem results_message_bands_witness:
  "0 < totalQuestions ((newSession [] [])\<lparr>score := 7\<rparr>)
   \<and> percentage 7 10 = 70
   \<and> events (endGame ((newSession [] [])\<lparr>score := 7\<rparr>)) = [Results 7 10 GreatJob]"
proof -
  have h: "0 < totalQuestions ((newSession [] [])\<lparr>score := 7\<rparr>)"
    "totalQuestions ((newSession [] [])\<lparr>score := 7\<rparr>) = 10"
    "score ((newSession [] [])\<lparr>score := 7\<rparr>) = 7"
    "events ((newSession [] [])\<lparr>score := 7\<rparr>) = []"
    by (simp_all add: newSession_def)
  have p: "percentage 7 10 = 70" by (simp add: percentage_def)
  show ?thesis
    using h p results_message_bands [OF h(1)] by auto
qed

text \<open>For the ten questions of a game the bands are scores of 9 and 10, of 7 and 8, of 5 and 6, and below 5.\<close>

lemma results_message_by_score:
  "resultsMessage sc 10 =
     (if 9 \<le> sc then Outstanding else if 7 \<le> sc then GreatJob
      else if 5 \<le> sc then GoodEffort else KeepTrying)"
  by (simp add: resultsMessage_def percentage_def)

section \<open>Properties of the selected words\<close>

text \<open>
  A slice of a shuffled pool takes each word at most as often as the pool has it, and the
  two pools do not overlap: an easy word has the category \<^verbatim>\<open>simple\<close>, a hard word has not.
\<close>

lemma mset_take_subset: "mset (take n xs) \<subseteq># mset xs"
proof -
  have "mset xs = mset (take n xs) + mset (drop n xs)"
    by (metis append_take_drop_id mset_append)
  then show ?thesis by simp
qed

lemma disjoint_filters_subset:
  assumes "\<And>x. P x \<Longrightarrow> \<not> Q x"
  shows "mset (filter P xs) + mset (filter Q xs) \<subseteq># mset xs"
proof -
  have "filter_mset P (mset xs) + filter_mset Q (mset xs) \<subseteq># mset xs"
    using assms by (intro mset_subset_eqI) (auto simp: count_filter_mset)
  then show ?thesis by simp
qed

lemma easy_not_hard: "easyWord w \<Longrightarrow> \<not> hardWord w"
  by (auto simp: easyWord_def hardWord_def)

lemma selectGameWords_round:
  assumes "valid_rnd rs"
    and "length (filter easyWord ws) + length (filter hardWord ws) + 9 \<le> length rs"
  shows "\<exists>gw rs' selectedEasy selectedHard.
           selectGameWords ws s rs = Inr (s\<lparr>gameWords := gw\<rparr>, rs')
         \<and> mset gw = mset selectedEasy + mset selectedHard
         \<and> mset selectedEasy \<subseteq># mset (filter easyWord ws)
         \<and> mset selectedHard \<subseteq># mset (filter hardWord ws)
         \<and> length selectedEasy = min 5 (length (filter easyWord ws))
         \<and> length selectedHard = min 5 (length (filter hardWord ws))
         \<and> mset gw \<subseteq># mset ws"
proof -
  let ?e = "filter easyWord ws" and ?h = "filter hardWord ws"
  let ?r1 = "drop (length ?e - 1) rs"
  have "length ?e - 1 \<le> length rs" using assms(2) by linarith
  from shuffleArray_perm [OF assms(1) this]
  obtain se where se: "shuffleArray ?e rs = Inr (se, ?r1)" and me: "mset se = mset ?e"
    by blast
  have v1: "valid_rnd ?r1" using assms(1) by (rule valid_rnd_drop)
  let ?r2 = "drop (length ?h - 1) ?r1"
  have "length ?h - 1 \<le> length ?r1" using assms(2) by simp
  from shuffleArray_perm [OF v1 this]
  obtain sh where sh: "shuffleArray ?h ?r1 = Inr (sh, ?r2)" and mh: "mset sh = mset ?h"
    by blast
  have v2: "valid_rnd ?r2" using v1 by (rule valid_rnd_drop)
  let ?sel = "take 5 se @ take 5 sh"
  have "length ?sel - 1 \<le> length ?r2" using assms(2) by simp
  from shuffleArray_perm [OF v2 this]
  obtain gw where gw: "shuffleArray ?sel ?r2 = Inr (gw, drop (length ?sel - 1) ?r2)"
    and mg: "mset gw = mset ?sel"
    by blast
  have le: "length se = length ?e" using me by (rule mset_eq_length)
  have lh: "length sh = length ?h" using mh by (rule mset_eq_length)
  have s1: "mset (take 5 se) \<subseteq># mset ?e" using mset_take_subset [of 5 se] me by simp
  have s2: "mset (take 5 sh) \<subseteq># mset ?h" using mset_take_subset [of 5 sh] mh by simp
  have "mset (take 5 se) + mset (take 5 sh) \<subseteq># mset ?e + mset ?h"
    using s1 s2 by (rule subset_mset.add_mono)
  also have "\<dots> \<subseteq># mset ws"
    using easy_not_hard by (rule disjoint_filters_subset)
  finally have s3: "mset gw \<subseteq># mset ws" using mg by simp
  have "selectGameWords ws s rs = Inr (s\<lparr>gameWords := gw\<rparr>, drop (length ?sel - 1) ?r2)"
    using se sh gw by (simp add: selectGameWords_def Let_def)
  moreover have "mset gw = mset (take 5 se) + mset (take 5 sh)" using mg by simp
  moreover have "length (take 5 se) = min 5 (length ?e)" using le by simp
  moreover have "length (take 5 sh) = min 5 (length ?h)" using lh by simp
  ultimately show ?thesis using s1 s2 s3 by blast
qed

text \<open>
  Claim C7. Starting a game selects the round words by partitioning the catalog into easy
  words (category simple and text length at most 3) and hard words (category among digraph,
  blend, trigraph, vowel_team), taking up to 5 distinct random words from each pool without
  replacement, and concatenating and shuffling them, so the resulting round sequence is a
  permutation of at most 5 easy and at most 5 hard words with no word appearing more often
  than in the catalog. \<^verbatim>\<open>initializeGame\<close> returns a game whose words are a permutation of a
  selection from the easy pool and a selection from the hard pool, each selection holding
  five words or, if the pool is smaller, the whole pool; the score and the question
  number are zero. The random source has to hold the numbers the three shuffles draw.
\<close>

theorem round_words_selected:
  assumes "valid_rnd rs"
    and "length (filter easyWord ws) + length (filter hardWord ws) + 9 \<le> length rs"
  shows "\<exists>g rs' selectedEasy selectedHard.
           initializeGame ws rs = Inr (g, rs')
         \<and> mset (gameWords g) = mset selectedEasy + mset selectedHard
         \<and> mset selectedEasy \<subseteq># mset (filter easyWord ws)
         \<and> mset selectedHard \<subseteq># mset (filter hardWord ws)
         \<and> length selectedEasy = min 5 (length (filter easyWord ws))
         \<and> length selectedHard = min 5 (length (filter hardWord ws))
         \<and> mset (gameWords g) \<subseteq># mset ws
         \<and> score g = 0 \<and> currentQuestion g = 0"
proof -
  from selectGameWords_round [OF assms, of newGameState]
  obtain gw rs' selectedEasy selectedHard where
    r: "selectGameWords ws newGameState rs = Inr (newGameState\<lparr>gameWords := gw\<rparr>, rs')"
      "mset gw = mset selectedEasy + mset selectedHard"
      "mset selectedEasy \<subseteq># mset (filter easyWord ws)"
      "mset selectedHard \<subseteq># mset (filter hardWord ws)"
      "length selectedEasy = min 5 (length (filter easyWord ws))"
      "length selectedHard = min 5 (length (filter hardWord ws))"
      "mset gw \<subseteq># mset ws"
    by blast
  have "initializeGame ws rs = Inr (newGameState\<lparr>gameWords := gw\<rparr>, rs')"
    using r(1) by (simp add: initializeGame_def)
  moreover have "score (newGameState\<lparr>gameWords := gw\<rparr>) = 0"
    "currentQuestion (newGameState\<lparr>gameWords := gw\<rparr>) = 0"
    by (simp_all add: newGameState_def)
  ultimately show ?thesis using r(2-7) 
    by (intro exI [of _ "newGameState\<lparr>gameWords := gw\<rparr>"] exI [of _ rs']
        exI [of _ selectedEasy] exI [of _ selectedHard]) simp
qed


text \<open>A catalog of two easy words, one hard word and one word of neither pool.\<close>

theorem round_words_selected_witness:
  "valid_rnd [1/2, 0, 1/4, 3/4, 0, 0, 0, 0, 0, 0, 0, 0]
   \<and> length (filter easyWord 
         [\<lparr>word = ''cat'', phonics = ''k-a-t'', category = ''simple''\<rparr>,
           \<lparr>word = ''ship'', phonics = ''sh-i-p'', category = ''digraph''\<rparr>,
           \<lparr>word = ''dog'', phonics = ''d-o-g'', category = ''simple''\<rparr>,
           \<lparr>word = ''phone'', phonics = ''f-o-n'', category = ''silent''\<rparr>]) + length (filter hardWord 
         [\<lparr>word = ''cat'', phonics = ''k-a-t'', category = ''simple''\<rparr>,
           \<lparr>word = ''ship'', phonics = ''sh-i-p'', category = ''digraph''\<rparr>,
           \<lparr>word = ''dog'', phonics = ''d-o-g'', category = ''simple''\<rparr>,
           \<lparr>word = ''phone'', phonics = ''f-o-n'', category = ''silent''\<rparr>]) + 9 \<le> length [1/2, 0, 1/4, 3/4, 0, 0, 0, 0, 0, 0, 0, 0]
   \<and> (\<exists>g rs' selectedEasy selectedHard.
           initializeGame 
         [\<lparr>word = ''cat'', phonics = ''k-a-t'', category = ''simple''\<rparr>,
           \<lparr>word = ''ship'', phonics = ''sh-i-p'', category = ''digraph''\<rparr>,
           \<lparr>word = ''dog'', phonics = ''d-o-g'', category = ''simple''\<rparr>,
           \<lparr>word = ''phone'', phonics = ''f-o-n'', category = ''silent''\<rparr>] [1/2, 0, 1/4, 3/4, 0, 0, 0, 0, 0, 0, 0, 0] = Inr (g, rs')
         \<and> mset (gameWords g) = mset selectedEasy + mset selectedHard
         \<and> mset selectedEasy \<subseteq># mset (filter easyWord 
         [\<lparr>word = ''cat'', phonics = ''k-a-t'', category = ''simple''\<rparr>,
           \<lparr>word = ''ship'', phonics = ''sh-i-p'', category = ''digraph''\<rparr>,
           \<lparr>word = ''dog'', phonics = ''d-o-g'', category = ''simple''\<rparr>,
           \<lparr>word = ''phone'', phonics = ''f-o-n'', category = ''silent''\<rparr>])
         \<and> mset selectedHard \<subseteq># mset (filter hardWord 
         [\<lparr>word = ''cat'', phonics = ''k-a-t'', category = ''simple''\<rparr>,
           \<lparr>word = ''ship'', phonics = ''sh-i-p'', category = ''digraph''\<rparr>,
           \<lparr>word = ''dog'', phonics = ''d-o-g'', category = ''simple''\<rparr>,
           \<lparr>word = ''phone'', phonics = ''f-o-n'', category = ''silent''\<rparr>])
         \<and> length selectedEasy = min 5 (length (filter easyWord 
         [\<lparr>word = ''cat'', phonics = ''k-a-t'', category = ''simple''\<rparr>,
           \<lparr>word = ''ship'', phonics = ''sh-i-p'', category = ''digraph''\<rparr>,
           \<lparr>word = ''dog'', phonics = ''d-o-g'', category = ''simple''\<rparr>,
           \<lparr>word = ''phone'', phonics = ''f-o-n'', category = ''silent''\<rparr>]))
         \<and> length selectedHard = min 5 (length (filter hardWord 
         [\<lparr>word = ''cat'', phonics = ''k-a-t'', category = ''simple''\<rparr>,
           \<lparr>word = ''ship'', phonics = ''sh-i-p'', category = ''digraph''\<rparr>,
           \<lparr>word = ''dog'', phonics = ''d-o-g'', category = ''simple''\<rparr>,
           \<lparr>word = ''phone'', phonics = ''f-o-n'', category = ''silent''\<rparr>]))
         \<and> mset (gameWords g) \<subseteq># mset 
         [\<lparr>word = ''cat'', phonics = ''k-a-t'', category = ''simple''\<rparr>,
           \<lparr>word = ''ship'', phonics = ''sh-i-p'', category = ''digraph''\<rparr>,
           \<lparr>word = ''dog'', phonics = ''d-o-g'', category = ''simple''\<rparr>,
           \<lparr>word = ''phone'', phonics = ''f-o-n'', category = ''silent''\<rparr>]
         \<and> score g = 0 \<and> currentQuestion g = 0)"
proof -
  have h1: "valid_rnd [1/2, 0, 1/4, 3/4, 0, 0, 0, 0, 0, 0, 0, 0]"
    by simp
  have h2: "length (filter easyWord 
         [\<lparr>word = ''cat'', phonics = ''k-a-t'', category = ''simple''\<rparr>,
           \<lparr>word = ''ship'', phonics = ''sh-i-p'', category = ''digraph''\<rparr>,
           \<lparr>word = ''dog'', phonics = ''d-o-g'', category = ''simple''\<rparr>,
           \<lparr>word = ''phone'', phonics = ''f-o-n'', category = ''silent''\<rparr>]) + length (filter hardWord 
         [\<lparr>word = ''cat'', phonics = ''k-a-t'', category = ''simple''\<rparr>,
           \<lparr>word = ''ship'', phonics = ''sh-i-p'', category = ''digraph''\<rparr>,
           \<lparr>word = ''dog'', phonics = ''d-o-g'', category = ''simple''\<rparr>,
           \<lparr>word = ''phone'', phonics = ''f-o-n'', category = ''silent''\<rparr>]) + 9 \<le> length [1/2, 0, 1/4, 3/4, 0, 0, 0, 0, 0, 0, 0, 0]"
    by (simp add: easyWord_def hardWord_def)
  show ?thesis
    using h1 h2 round_words_selected [OF h1 h2] by (intro conjI)
qed

section \<open>Properties of the loaded catalog\<close>

text \<open>
  What the \<^verbatim>\<open>forEach\<close> of \<^verbatim>\<open>loadWords\<close> leaves in the map: a text that no word has keeps
  its entry; every entry comes from a word or was there before; a word with a text that
  is not empty and that no later word has is the entry of its text.
\<close>

lemma foldl_setLookup_other:
  "k \<notin> word ` set ws \<Longrightarrow> foldl setLookup m ws k = m k"
  by (induction ws arbitrary: m) (auto simp: setLookup_def)

lemma foldl_setLookup_value:
  "foldl setLookup m ws k = Some r \<Longrightarrow> r \<in> set ws \<or> m k = Some r"
proof (induction ws arbitrary: m)
  case Nil
  then show ?case by simp
next
  case (Cons w ws)
  then have "r \<in> set ws \<or> setLookup m w k = Some r" by simp
  then show ?case by (auto simp: setLookup_def split: if_splits)
qed

lemma foldl_setLookup_last:
  assumes "word r \<noteq> []" "word r \<notin> word ` set post"
  shows "foldl setLookup m (pre @ r # post) (word r) = Some r"
proof -
  have "foldl setLookup m (pre @ r # post) = foldl setLookup (setLookup (foldl setLookup m pre) r) post"
    by simp
  then show ?thesis using assms by (simp add: foldl_setLookup_other setLookup_def)
qed

lemma foldl_setLookup_key:
  "foldl setLookup m ws k = Some r \<Longrightarrow> m k = Some r \<or> (word r = k \<and> k \<noteq> [])"
proof (induction ws arbitrary: m)
  case Nil
  then show ?case by simp
next
  case (Cons w ws)
  then have "setLookup m w k = Some r \<or> (word r = k \<and> k \<noteq> [])" by simp
  then show ?case by (auto simp: setLookup_def split: if_splits)
qed

text \<open>
  Claim C9, as amended. After the catalog is loaded, every record stored in the mapping
  also appears in the sequence, stored under its own text, which is not empty; and every
  record of the sequence whose text is not empty and is not the text of a later record
  appears as a value in the mapping, under its text.
\<close>

theorem lookup_agrees_with_words:
  "(\<forall>r \<in> ran (wordLookup (fst (loadWords (Json ws) c))).
       r \<in> set (words (fst (loadWords (Json ws) c))))
   \<and> (\<forall>k r. wordLookup (fst (loadWords (Json ws) c)) k = Some r \<longrightarrow> word r = k \<and> k \<noteq> [])
   \<and> (\<forall>pre r post.
         words (fst (loadWords (Json ws) c)) = pre @ r # post
         \<and> word r \<noteq> [] \<and> word r \<notin> word ` set post
       \<longrightarrow> wordLookup (fst (loadWords (Json ws) c)) (word r) = Some r)"
proof -
  let ?c = "fst (loadWords (Json ws) c)"
  have w: "words ?c = ws" by (simp add: loadWords_def Let_def)
  have l: "wordLookup ?c = foldl setLookup Map.empty ws" by (simp add: loadWords_def Let_def)
  have a: "r \<in> set ws" if "r \<in> ran (wordLookup ?c)" for r
  proof -
    from that obtain k where "wordLookup ?c k = Some r"
      unfolding ran_def by blast
    then have "foldl setLookup Map.empty ws k = Some r" using l by simp
    then show ?thesis using foldl_setLookup_value by fastforce
  qed
  have b: "word r = k \<and> k \<noteq> []" if "wordLookup ?c k = Some r" for k r
    using that l foldl_setLookup_key [of Map.empty ws k r] by simp
  have d: "wordLookup ?c (word r) = Some r"
    if "ws = pre @ r # post" "word r \<noteq> []" "word r \<notin> word ` set post" for pre r post
  proof -
    have "foldl setLookup Map.empty (pre @ r # post) (word r) = Some r"
      using that(2,3) by (rule foldl_setLookup_last)
    then show ?thesis using that(1) l by simp
  qed
  show ?thesis using a b d w by auto
qed

text \<open>A catalog of two words with different texts: the first is found under its text.\<close>

theorem lookup_agrees_with_words_witness:
  "wordLookup (fst (loadWords (Json
       [\<lparr>word = ''cat'', phonics = ''k-a-t'', category = ''simple''\<rparr>,
        \<lparr>word = ''ship'', phonics = ''sh-i-p'', category = ''digraph''\<rparr>]) newCatalog)) ''cat''
     = Some \<lparr>word = ''cat'', phonics = ''k-a-t'', category = ''simple''\<rparr>
   \<and> \<lparr>word = ''cat'', phonics = ''k-a-t'', category = ''simple''\<rparr>
        \<in> set (words (fst (loadWords (Json
       [\<lparr>word = ''cat'', phonics = ''k-a-t'', category = ''simple''\<rparr>,
        \<lparr>word = ''ship'', phonics = ''sh-i-p'', category = ''digraph''\<rparr>]) newCatalog)))"
proof -
  let ?cat = "\<lparr>word = ''cat'', phonics = ''k-a-t'', category = ''simple''\<rparr>"
  let ?ship = "\<lparr>word = ''ship'', phonics = ''sh-i-p'', category = ''digraph''\<rparr>"
  let ?c = "fst (loadWords (Json [?cat, ?ship]) newCatalog)"
  note t = lookup_agrees_with_words [of "[?cat, ?ship]" newCatalog]
  have w: "words ?c = [] @ ?cat # [?ship]" by (simp add: loadWords_def Let_def)
  have "words ?c = [] @ ?cat # [?ship] \<and> word ?cat \<noteq> [] \<and> word ?cat \<notin> word ` set [?ship]
          \<longrightarrow> wordLookup ?c (word ?cat) = Some ?cat"
    using t by blast
  then have l: "wordLookup ?c ''cat'' = Some ?cat" using w by simp
  then have "?cat \<in> ran (wordLookup ?c)" by (auto simp: ran_def)
  then have "?cat \<in> set (words ?c)" using t by blast
  then show ?thesis using l by simp
qed

text \<open>
  Claim C9 as stated asks that every record of the sequence is a value of the mapping. Of
  two records with the same text, \<^verbatim>\<open>wordLookup.set\<close> keeps the later one: the first record
  of this catalog is in the sequence and is no value of the mapping, and the load
  succeeded.
\<close>

theorem repeated_text_counterexample:
  "\<lparr>word = ''cat'', phonics = ''k-a-t'', category = ''simple''\<rparr>
      \<in> set (words (fst (loadWords (Json
           [\<lparr>word = ''cat'', phonics = ''k-a-t'', category = ''simple''\<rparr>,
            \<lparr>word = ''cat'', phonics = ''kat'', category = ''simple''\<rparr>]) newCatalog)))
   \<and> \<lparr>word = ''cat'', phonics = ''k-a-t'', category = ''simple''\<rparr>
      \<notin> ran (wordLookup (fst (loadWords (Json
           [\<lparr>word = ''cat'', phonics = ''k-a-t'', category = ''simple''\<rparr>,
            \<lparr>word = ''cat'', phonics = ''kat'', category = ''simple''\<rparr>]) newCatalog)))
   \<and> snd (loadWords (Json
           [\<lparr>word = ''cat'', phonics = ''k-a-t'', category = ''simple''\<rparr>,
            \<lparr>word = ''cat'', phonics = ''kat'', category = ''simple''\<rparr>]) newCatalog) = False"
  by (simp add: loadWords_def setLookup_def newCatalog_def Let_def)

end
